theory Spec2Isabelle
  imports Complex_Main "HOL-Library.Sublist"
begin

section \<open>The browser session as an environment\<close>

text \<open>
  The solver drives a Selenium session. The session is external to the repository, so it
  is a parameter of the model: a record of query functions over an abstract page state
  \<open>'w\<close> (the DOM, the clock, the random generator), and transition functions for the
  calls that change it. Element handles are opaque. A call that raises in Python returns
  \<open>Inl\<close> of the exception here.
\<close>

type_synonym elem = nat

datatype exn = NoSuchElementException | WebDriverException | ValueError | AttributeError

datatype locator = CSS_SELECTOR | XPATH

text \<open>The three JavaScript snippets the solvers pass to \<open>driver.execute_script\<close>.\<close>

datatype script = ScrollIntoView | JsClick | DispatchInput

datatype action =
    Click elem
  | ExecuteScript script elem
  | ClearField elem
  | SendKeys elem string
  | Sleep real

record 'w env =
  find_element :: "'w \<Rightarrow> elem option \<Rightarrow> locator \<Rightarrow> string \<Rightarrow> exn + elem"
  find_elements :: "'w \<Rightarrow> elem option \<Rightarrow> locator \<Rightarrow> string \<Rightarrow> exn + elem list"
  get_attribute :: "'w \<Rightarrow> elem \<Rightarrow> string \<Rightarrow> exn + string option"
  text_of :: "'w \<Rightarrow> elem \<Rightarrow> exn + string"
  is_selected :: "'w \<Rightarrow> elem \<Rightarrow> exn + bool"
  perform :: "'w \<Rightarrow> action \<Rightarrow> exn option \<times> 'w"
  sleep :: "'w \<Rightarrow> real \<Rightarrow> 'w"
  gauss :: "'w \<Rightarrow> real \<Rightarrow> real \<Rightarrow> real"
  stop_requested :: "'w \<Rightarrow> bool"

text \<open>
  The state threaded through the solvers: the page state, the shared
  \<open>threading.Event\<close> of \<open>SolverManager\<close>, and the log of every call that acted on
  the page or slept, with its outcome. The operator's Stop button sets the event from
  the GUI thread while the worker is inside a call that takes time; \<open>stop_requested\<close>
  says whether that happened by the time the call returns.
\<close>

record 'w state =
  world :: 'w
  stop_event :: bool
  trace :: "(action \<times> exn option) list"

definition perform_action :: "'w env \<Rightarrow> action \<Rightarrow> 'w state \<Rightarrow> exn option \<times> 'w state" where
  "perform_action env a s =
     (case perform env (world s) a of
        (r, w') \<Rightarrow>
          (r, s\<lparr>world := w',
                stop_event := stop_event s \<or> stop_requested env w',
                trace := trace s @ [(a, r)]\<rparr>))"

definition time_sleep :: "'w env \<Rightarrow> real \<Rightarrow> 'w state \<Rightarrow> 'w state" where
  "time_sleep env secs s =
     (let w' = sleep env (world s) secs
      in s\<lparr>world := w',
            stop_event := stop_event s \<or> stop_requested env w',
            trace := trace s @ [(Sleep secs, None)]\<rparr>)"

section \<open>utils/timing.py\<close>

text \<open>
  \<open>bell_curve_delay\<close>: the sample of \<open>random.gauss\<close> is the environment's
  \<open>gauss\<close>. Numbers are reals: comparison, \<open>max\<close> and \<open>min\<close> of floats are exact.
  \<open>time.sleep\<close> raises \<open>ValueError\<close> on a negative length, before anything is
  returned.
\<close>

definition bell_curve_delay ::
  "'w env \<Rightarrow> real \<Rightarrow> real option \<Rightarrow> real option \<Rightarrow> real option \<Rightarrow> 'w state
     \<Rightarrow> (exn + real) \<times> 'w state" where
  "bell_curve_delay env mean_ms std_dev_ms min_ms max_ms s =
     (let std_dev_ms = (case std_dev_ms of None \<Rightarrow> mean_ms / 4 | Some v \<Rightarrow> v);
          min_ms = (case min_ms of None \<Rightarrow> mean_ms / 2 | Some v \<Rightarrow> v);
          max_ms = (case max_ms of None \<Rightarrow> mean_ms * 2 | Some v \<Rightarrow> v);
          delay_ms = gauss env (world s) mean_ms std_dev_ms;
          delay_ms = max min_ms (min max_ms delay_ms);
          delay_seconds = delay_ms / 1000
      in if delay_seconds < 0 then (Inl ValueError, s)
         else (Inr delay_ms, time_sleep env delay_seconds s))"

section \<open>config.py\<close>

definition MIN_BETWEEN_QUESTIONS :: real where "MIN_BETWEEN_QUESTIONS = 500"
definition MAX_BETWEEN_QUESTIONS :: real where "MAX_BETWEEN_QUESTIONS = 1700"
definition MAX_RETRIES :: nat where "MAX_RETRIES = 60"

section \<open>Python floats in the poll loops\<close>

text \<open>
  The two poll loops keep \<open>wait_time\<close> as a Python float: it starts at 0, only the
  literal \<open>0.1\<close> is added to it, and it is compared with \<open>2.0\<close>. Every double that
  occurs is a multiple of \<open>2 ^ -56\<close> below 4 and is written here as its number of such
  units. IEEE-754 addition is the exact sum rounded to 53 significant bits, ties to even.
\<close>

fun bit_length :: "nat \<Rightarrow> nat" where
  "bit_length n = (if n = 0 then 0 else Suc (bit_length (n div 2)))"

declare bit_length.simps [simp del]

definition round_half_even :: "nat \<Rightarrow> nat \<Rightarrow> nat" where
  "round_half_even m k =
     (let u = 2 ^ k; q = m div u; r = m mod u
      in if 2 * r < u \<or> (2 * r = u \<and> even q) then q * u else (q + 1) * u)"

definition float_add :: "nat \<Rightarrow> nat \<Rightarrow> nat" where
  "float_add a b =
     (let m = a + b; n = bit_length m
      in if n \<le> 53 then m else round_half_even m (n - 53))"

text \<open>The double nearest to 0.1 is \<open>7205759403792794 * 2 ^ -56\<close>; 2.0 is exact.\<close>

definition float_0_1 :: nat where "float_0_1 = 7205759403792794"
definition float_2_0 :: nat where "float_2_0 = 2 ^ 57"

text \<open>The locals \<open>max_wait = 2.0\<close> and \<open>check_interval = 0.1\<close> of both poll loops.\<close>

definition max_wait :: nat where "max_wait = float_2_0"
definition check_interval :: nat where "check_interval = float_0_1"

section \<open>Strings\<close>

text \<open>
  Python's \<open>sub in s\<close> on strings is \<^const>\<open>sublist\<close>. \<open>str.strip()\<close> removes the
  leading and trailing whitespace; on byte strings these are the ten characters below.
\<close>

definition is_space :: "char \<Rightarrow> bool" where
  "is_space c \<longleftrightarrow>
     c \<in> set [CHR '' '', CHR 0x09, CHR 0x0A, CHR 0x0B, CHR 0x0C, CHR 0x0D,
               CHR 0x1C, CHR 0x1D, CHR 0x1E, CHR 0x1F]"

definition strip :: "string \<Rightarrow> string" where
  "strip t = rev (dropWhile is_space (rev (dropWhile is_space t)))"

text \<open>\<open>element.get_attribute(name) or ''\<close>\<close>

definition attr_or_empty :: "'w env \<Rightarrow> 'w \<Rightarrow> elem \<Rightarrow> string \<Rightarrow> exn + string" where
  "attr_or_empty env w e name =
     (case get_attribute env w e name of
        Inl x \<Rightarrow> Inl x
      | Inr None \<Rightarrow> Inr []
      | Inr (Some v) \<Rightarrow> Inr v)"

text \<open>
  The three lines that recur in the scanner and in the short-answer solver: find the
  chevron under \<open>scope\<close>, read its class attribute, test for \<open>filled\<close>.
\<close>

definition chevron_has_filled :: "'w env \<Rightarrow> 'w \<Rightarrow> elem \<Rightarrow> string \<Rightarrow> exn + bool" where
  "chevron_has_filled env w scope selector =
     (case find_element env w (Some scope) CSS_SELECTOR selector of
        Inl x \<Rightarrow> Inl x
      | Inr chevron \<Rightarrow>
          (case attr_or_empty env w chevron ''class'' of
             Inl x \<Rightarrow> Inl x
           | Inr classes \<Rightarrow> Inr (sublist ''filled'' classes)))"

section \<open>solvers/base_solver.py\<close>

text \<open>
  Calls of the logger are left out throughout, with the values that only feed them.
  \<open>SolverManager\<close> hands every solver its own event, so \<open>self.stop_event\<close> is
  never \<open>None\<close>.
\<close>

definition should_stop :: "'w state \<Rightarrow> bool" where
  "should_stop s = stop_event s"

text \<open>
  \<open>random_delay()\<close>: every call in the repository passes no argument, so the bounds
  are the configured ones and the bell curve is used. The solvers ignore what
  \<open>bell_curve_delay\<close> returns; with a lower bound that is not negative it never raises
  (\<open>bell_curve_delay_returns\<close> below).
\<close>

definition random_delay :: "'w env \<Rightarrow> 'w state \<Rightarrow> 'w state" where
  "random_delay env s =
     (let min_ms = MIN_BETWEEN_QUESTIONS;
          max_ms = MAX_BETWEEN_QUESTIONS;
          mean_ms = (min_ms + max_ms) / 2;
          std_dev_ms = (max_ms - min_ms) / 6
      in snd (bell_curve_delay env mean_ms (Some std_dev_ms) (Some min_ms) (Some max_ms) s))"

text \<open>
  The click idiom of all three solvers: scroll the element into view, wait a short
  bell-curve delay, click; any exception there leads to the JavaScript click, whose own
  exception is the only one that leaves the block. The radio solver has the block inline
  with its own delay bounds; \<open>safe_click\<close> of the animation and of the short-answer
  solver is the same method twice.
\<close>

definition click_with_fallback ::
  "'w env \<Rightarrow> elem \<Rightarrow> real \<Rightarrow> real \<Rightarrow> real \<Rightarrow> real \<Rightarrow> 'w state \<Rightarrow> exn option \<times> 'w state" where
  "click_with_fallback env element mean_ms std_dev_ms min_ms max_ms s =
     (case perform_action env (ExecuteScript ScrollIntoView element) s of
        (Some _, s1) \<Rightarrow> perform_action env (ExecuteScript JsClick element) s1
      | (None, s1) \<Rightarrow>
          (let s2 = snd (bell_curve_delay env mean_ms (Some std_dev_ms) (Some min_ms)
                           (Some max_ms) s1)
           in case perform_action env (Click element) s2 of
                (None, s3) \<Rightarrow> (None, s3)
              | (Some _, s3) \<Rightarrow> perform_action env (ExecuteScript JsClick element) s3))"

definition safe_click :: "'w env \<Rightarrow> elem \<Rightarrow> 'w state \<Rightarrow> exn option \<times> 'w state" where
  "safe_click env element s = click_with_fallback env element 150 40 80 250 s"

section \<open>solvers/question_scanner.py\<close>

text \<open>A scanned question is a dictionary with the keys \<open>index\<close>, \<open>type\<close>, \<open>element\<close>,
  \<open>completed\<close> and \<open>details\<close>; \<open>details\<close> is always empty.\<close>

record question =
  q_index :: nat
  q_type :: string
  q_element :: elem
  q_completed :: bool
  q_details :: "(string \<times> string) list"

definition is_animation :: "'w env \<Rightarrow> 'w \<Rightarrow> elem \<Rightarrow> bool" where
  \<open>is_animation env w element =
     (case attr_or_empty env w element ''class'' of
        Inl _ \<Rightarrow> False
      | Inr classes \<Rightarrow>
          if sublist ''animation-player-content-resource'' classes then True
          else if sublist ''animation-player'' classes then
            (case find_element env w (Some element) CSS_SELECTOR
                    ''button[class*="start-button"]'' of
               Inr _ \<Rightarrow> True
             | Inl _ \<Rightarrow>
                 (case find_element env w (Some element) CSS_SELECTOR
                         ''div.animation-controls'' of
                    Inr _ \<Rightarrow> True
                  | Inl _ \<Rightarrow> False))
          else False)\<close>

definition is_animation_complete :: "'w env \<Rightarrow> 'w \<Rightarrow> elem \<Rightarrow> bool" where
  \<open>is_animation_complete env w element =
     (case find_element env w (Some element) CSS_SELECTOR ''div[class*="zb-chevron"]'' of
        Inl _ \<Rightarrow> False
      | Inr chevron \<Rightarrow>
          (case attr_or_empty env w chevron ''class'' of
             Inl _ \<Rightarrow> False
           | Inr classes \<Rightarrow> sublist ''filled'' classes \<or> sublist ''orange'' classes))\<close>

definition is_radio_question :: "'w env \<Rightarrow> 'w \<Rightarrow> elem \<Rightarrow> bool" where
  \<open>is_radio_question env w element =
     (case attr_or_empty env w element ''class'' of
        Inl _ \<Rightarrow> False
      | Inr classes \<Rightarrow>
          if sublist ''zb-radio-button'' classes \<or> sublist ''radio-button'' classes then False
          else
            (case get_attribute env w element ''role'' of
               Inl _ \<Rightarrow> False
             | Inr role \<Rightarrow>
                 if role = Some ''radiogroup'' then
                   (case find_elements env w (Some element) CSS_SELECTOR
                           ''input[type="radio"]'' of
                      Inl _ \<Rightarrow> False
                    | Inr radios \<Rightarrow> length radios > 0)
                 else if sublist ''question-choices'' classes then
                   (case find_elements env w (Some element) CSS_SELECTOR
                           ''input[type="radio"]'' of
                      Inl _ \<Rightarrow> False
                    | Inr radios \<Rightarrow> length radios > 0)
                 else False))\<close>

text \<open>\<open>any(r.is_selected() for r in radios)\<close>: stops at the first selected radio.\<close>

fun any_selected :: "'w env \<Rightarrow> 'w \<Rightarrow> elem list \<Rightarrow> exn + bool" where
  "any_selected env w [] = Inr False"
| "any_selected env w (r # radios) =
     (case is_selected env w r of
        Inl x \<Rightarrow> Inl x
      | Inr True \<Rightarrow> Inr True
      | Inr False \<Rightarrow> any_selected env w radios)"

definition is_radio_complete :: "'w env \<Rightarrow> 'w \<Rightarrow> elem \<Rightarrow> bool" where
  \<open>is_radio_complete env w element =
     (let chevron_found =
            (case find_element env w (Some element) XPATH ''..'' of
               Inl _ \<Rightarrow> False
             | Inr parent \<Rightarrow>
                 if chevron_has_filled env w parent ''div.zb-chevron.question-chevron''
                      = Inr True
                 then True
                 else
                   (case find_element env w (Some parent) XPATH ''..'' of
                      Inl _ \<Rightarrow> False
                    | Inr grandparent \<Rightarrow>
                        chevron_has_filled env w grandparent
                          ''div.zb-chevron.question-chevron'' = Inr True))
      in if chevron_found then True
         else
           (case find_elements env w (Some element) CSS_SELECTOR ''input[type="radio"]'' of
              Inl _ \<Rightarrow> False
            | Inr radios \<Rightarrow>
                (case any_selected env w radios of Inl _ \<Rightarrow> False | Inr b \<Rightarrow> b)))\<close>

definition is_short_answer :: "'w env \<Rightarrow> 'w \<Rightarrow> elem \<Rightarrow> bool" where
  "is_short_answer env w element =
     (case attr_or_empty env w element ''class'' of
        Inl _ \<Rightarrow> False
      | Inr classes \<Rightarrow> sublist ''short-answer-question'' classes)"

definition is_short_answer_complete :: "'w env \<Rightarrow> 'w \<Rightarrow> elem \<Rightarrow> bool" where
  "is_short_answer_complete env w element =
     (case chevron_has_filled env w element ''div.zb-chevron'' of
        Inl _ \<Rightarrow> False
      | Inr b \<Rightarrow> b)"

text \<open>
  \<open>classify_element\<close>: the three detectors catch every exception themselves, so the
  outer \<open>try\<close> never fires; \<open>None\<close> is the value for an element that is no question.
\<close>

definition classify_element :: "'w env \<Rightarrow> 'w \<Rightarrow> elem \<Rightarrow> nat \<Rightarrow> question option" where
  "classify_element env w element index =
     (if is_animation env w element then
        Some \<lparr>q_index = index, q_type = ''animation'', q_element = element,
              q_completed = is_animation_complete env w element, q_details = []\<rparr>
      else if is_short_answer env w element then
        Some \<lparr>q_index = index, q_type = ''short_answer'', q_element = element,
              q_completed = is_short_answer_complete env w element, q_details = []\<rparr>
      else if is_radio_question env w element then
        Some \<lparr>q_index = index, q_type = ''radio'', q_element = element,
              q_completed = is_radio_complete env w element, q_details = []\<rparr>
      else None)"



section \<open>solvers/radio_solver.py\<close>

fun collect_messages :: "'w env \<Rightarrow> 'w \<Rightarrow> elem list \<Rightarrow> string set \<Rightarrow> string set" where
  "collect_messages env w [] messages = messages"
| "collect_messages env w (feedback # all_feedback) messages =
     (case find_element env w (Some feedback) CSS_SELECTOR ''div'' of
        Inl _ \<Rightarrow> collect_messages env w all_feedback messages
      | Inr msg_div \<Rightarrow>
          (case text_of env w msg_div of
             Inl _ \<Rightarrow> collect_messages env w all_feedback messages
           | Inr t \<Rightarrow>
               (let text = strip t
                in if text \<noteq> [] then collect_messages env w all_feedback (insert text messages)
                   else collect_messages env w all_feedback messages)))"

definition get_current_feedback_messages :: "'w env \<Rightarrow> 'w \<Rightarrow> string set" where
  "get_current_feedback_messages env w =
     (case find_elements env w None CSS_SELECTOR ''div.zb-explanation'' of
        Inl _ \<Rightarrow> {}
      | Inr all_feedback \<Rightarrow> collect_messages env w all_feedback {})"

text \<open>
  The inner \<open>for elem in ...\<close> loops of \<open>check_feedback\<close>: whether some element of
  the list carries a non-empty message text that is not among the old ones.
\<close>

fun has_new_message :: "'w env \<Rightarrow> 'w \<Rightarrow> elem list \<Rightarrow> string set \<Rightarrow> bool" where
  "has_new_message env w [] old_messages = False"
| "has_new_message env w (e # elements) old_messages =
     (case find_element env w (Some e) CSS_SELECTOR ''div'' of
        Inl _ \<Rightarrow> has_new_message env w elements old_messages
      | Inr msg_div \<Rightarrow>
          (case text_of env w msg_div of
             Inl _ \<Rightarrow> has_new_message env w elements old_messages
           | Inr t \<Rightarrow>
               (let text = strip t
                in if text \<noteq> [] \<and> text \<notin> old_messages then True
                   else has_new_message env w elements old_messages)))"

definition new_feedback :: "'w env \<Rightarrow> 'w \<Rightarrow> string \<Rightarrow> string set \<Rightarrow> bool" where
  "new_feedback env w selector old_messages =
     (case find_elements env w None CSS_SELECTOR selector of
        Inl _ \<Rightarrow> False
      | Inr elements \<Rightarrow> has_new_message env w elements old_messages)"

function check_feedback_loop ::
  "'w env \<Rightarrow> string set \<Rightarrow> nat \<Rightarrow> 'w state \<Rightarrow> bool \<times> 'w state" where
  "check_feedback_loop env old_messages wait_time s =
     (if wait_time < max_wait then
        if should_stop s then (False, s)
        else if new_feedback env (world s) ''div.zb-explanation.correct'' old_messages
        then (True, s)
        else if new_feedback env (world s) ''div.zb-explanation.incorrect'' old_messages
        then (False, s)
        else
          (let s1 = snd (bell_curve_delay env 100 (Some 25) (Some 50) (Some 150) s);
               wait_time = float_add wait_time float_0_1;
               wait_time = float_add wait_time check_interval
           in check_feedback_loop env old_messages wait_time s1)
      else (False, s))"
  by pat_completeness auto
termination
proof (relation "measure (\<lambda>(env, old_messages, wait_time, s). max_wait - wait_time)")
  show "wf (measure (\<lambda>(env :: 'w env, old_messages :: string set, wait_time, s :: 'w state).
              max_wait - wait_time))"
    by simp
next
  fix env :: "'w env" and old_messages :: "string set" and wait_time xa xb :: nat
    and s x :: "'w state"
  assume w: "wait_time < max_wait"
    and xa: "xa = float_add wait_time float_0_1"
    and xb: "xb = float_add xa check_interval"
  have bl: "bit_length n \<le> k" if "n < 2 ^ k" for n k
    using that
  proof (induction k arbitrary: n)
    case 0
    then show ?case by (simp add: bit_length.simps)
  next
    case (Suc k)
    show ?case
    proof (cases "n = 0")
      case True
      then show ?thesis by (simp add: bit_length.simps)
    next
      case False
      have "n div 2 < 2 ^ k" using Suc.prems by auto
      then have "bit_length (n div 2) \<le> k" by (rule Suc.IH)
      then show ?thesis using False by (subst bit_length.simps) simp
    qed
  qed
  have lo: "a + b - 31 \<le> float_add a b" if "a + b < 2 ^ 58" for a b
  proof -
    let ?k = "bit_length (a + b) - 53"
    have "bit_length (a + b) \<le> 58" using that by (rule bl)
    then have "(2::nat) ^ ?k \<le> 2 ^ 5" by (intro power_increasing) auto
    then have u: "(2::nat) ^ ?k \<le> 32" by simp
    have r: "(a + b) mod 2 ^ ?k < 2 ^ ?k" by simp
    have m: "(a + b) div 2 ^ ?k * 2 ^ ?k + (a + b) mod 2 ^ ?k = a + b"
      by (rule div_mult_mod_eq)
    have "a + b - 31 \<le> (a + b) div 2 ^ ?k * 2 ^ ?k" using r m u by linarith
    moreover have "(a + b) div 2 ^ ?k * 2 ^ ?k \<le> round_half_even (a + b) ?k"
      by (simp add: round_half_even_def Let_def)
    ultimately have "a + b - 31 \<le> round_half_even (a + b) ?k" by (rule order_trans)
    then show ?thesis by (simp add: float_add_def Let_def)
  qed
  have hi: "float_add a b \<le> a + b + 32" if "a + b < 2 ^ 58" for a b
  proof -
    let ?k = "bit_length (a + b) - 53"
    have "bit_length (a + b) \<le> 58" using that by (rule bl)
    then have "(2::nat) ^ ?k \<le> 2 ^ 5" by (intro power_increasing) auto
    then have u: "(2::nat) ^ ?k \<le> 32" by simp
    have "(a + b) div 2 ^ ?k * 2 ^ ?k \<le> a + b" by simp
    then have "(a + b) div 2 ^ ?k * 2 ^ ?k + 2 ^ ?k \<le> a + b + 32" using u by linarith
    then have "round_half_even (a + b) ?k \<le> a + b + 32"
      by (simp add: round_half_even_def Let_def)
    then show ?thesis by (simp add: float_add_def Let_def)
  qed
  have w': "wait_time < 2 ^ 57" using w by (simp add: max_wait_def float_2_0_def)
  have c: "float_0_1 = 7205759403792794" by (simp add: float_0_1_def)
  have 1: "wait_time + float_0_1 < 2 ^ 58" using w' c by simp
  have 2: "float_add wait_time float_0_1 + float_0_1 < 2 ^ 58"
    using hi [OF 1] w' c by simp
  have "wait_time < float_add (float_add wait_time float_0_1) float_0_1"
    using lo [OF 1] lo [OF 2] c by linarith
  then show "((env, old_messages, xb, x), (env, old_messages, wait_time, s))
             \<in> measure (\<lambda>(env, old_messages, wait_time, s). max_wait - wait_time)"
    using w xa xb by (simp add: check_interval_def diff_less_mono2)
qed

declare check_feedback_loop.simps [simp del]

definition check_feedback :: "'w env \<Rightarrow> string set \<Rightarrow> 'w state \<Rightarrow> bool \<times> 'w state" where
  "check_feedback env old_messages s =
     (let wait_time = 0 in check_feedback_loop env old_messages wait_time s)"

text \<open>
  The body of the \<open>try\<close> for one radio button. \<open>True\<close> is the \<open>return True\<close> after a
  new correct message; \<open>False\<close> is falling through to the next radio, also by the
  \<open>continue\<close> of the exception handler.
\<close>

definition try_radio :: "'w env \<Rightarrow> elem \<Rightarrow> 'w state \<Rightarrow> bool \<times> 'w state" where
  "try_radio env radio s =
     (case find_element env (world s) (Some radio) XPATH ''..'' of
        Inl _ \<Rightarrow> (False, s)
      | Inr parent \<Rightarrow>
          (case text_of env (world s) parent of
             Inl _ \<Rightarrow> (False, s)
           | Inr _ \<Rightarrow>
               (let old_feedback_messages = get_current_feedback_messages env (world s)
                in case click_with_fallback env radio 200 50 100 400 s of
                     (Some _, s1) \<Rightarrow> (False, s1)
                   | (None, s1) \<Rightarrow>
                       (let s2 = snd (bell_curve_delay env 500 (Some 100) (Some 300)
                                        (Some 800) s1)
                        in check_feedback env old_feedback_messages s2))))"

fun radio_loop :: "'w env \<Rightarrow> elem list \<Rightarrow> 'w state \<Rightarrow> bool \<times> 'w state" where
  "radio_loop env [] s = (False, s)"
| "radio_loop env (radio # radios) s =
     (if should_stop s then (False, s)
      else
        (case try_radio env radio s of
           (True, s1) \<Rightarrow> (True, s1)
         | (False, s1) \<Rightarrow> radio_loop env radios s1))"




section \<open>solvers/animation_solver.py\<close>

definition click_start_button :: "'w env \<Rightarrow> elem \<Rightarrow> 'w state \<Rightarrow> bool \<times> 'w state" where
  \<open>click_start_button env animation s =
     (case find_element env (world s) (Some animation) CSS_SELECTOR
             ''button[class*="start-button"]'' of
        Inl x \<Rightarrow> (x = NoSuchElementException, s)
      | Inr start_btn \<Rightarrow>
          (case safe_click env start_btn s of
             (Some x, s1) \<Rightarrow> (x = NoSuchElementException, s1)
           | (None, s1) \<Rightarrow>
               (True, snd (bell_curve_delay env 400 (Some 100) (Some 250) (Some 650) s1))))\<close>

definition enable_2x_speed :: "'w env \<Rightarrow> elem \<Rightarrow> 'w state \<Rightarrow> 'w state" where
  \<open>enable_2x_speed env animation s =
     (case find_element env (world s) (Some animation) CSS_SELECTOR
             ''div[class*="speed-control"] input[type="checkbox"]'' of
        Inl _ \<Rightarrow> s
      | Inr speed_checkbox \<Rightarrow>
          (case is_selected env (world s) speed_checkbox of
             Inl _ \<Rightarrow> s
           | Inr True \<Rightarrow> s
           | Inr False \<Rightarrow>
               (case safe_click env speed_checkbox s of
                  (Some _, s1) \<Rightarrow> s1
                | (None, s1) \<Rightarrow>
                    snd (bell_curve_delay env 150 (Some 40) (Some 80) (Some 250) s1))))\<close>

definition click_play_button :: "'w env \<Rightarrow> elem \<Rightarrow> 'w state \<Rightarrow> bool \<times> 'w state" where
  \<open>click_play_button env animation s =
     (case find_element env (world s) (Some animation) CSS_SELECTOR
             ''button[aria-label="Play"]'' of
        Inl _ \<Rightarrow> (False, s)
      | Inr play_btn \<Rightarrow>
          (case safe_click env play_btn s of
             (Some _, s1) \<Rightarrow> (False, s1)
           | (None, s1) \<Rightarrow> (True, s1)))\<close>

text \<open>
  The body of the inner \<open>try\<close> of \<open>is_complete\<close> at one level: the chevron under
  \<open>current\<close>, its class and its aria-label, and the strict test on both.
\<close>

definition chevron_strict_check :: "'w env \<Rightarrow> 'w \<Rightarrow> elem \<Rightarrow> exn + bool" where
  \<open>chevron_strict_check env w current =
     (case find_element env w (Some current) CSS_SELECTOR
             ''div[class*="zb-chevron"][class*="title-bar-chevron"]'' of
        Inl x \<Rightarrow> Inl x
      | Inr chevron \<Rightarrow>
          (case attr_or_empty env w chevron ''class'' of
             Inl x \<Rightarrow> Inl x
           | Inr classes \<Rightarrow>
               (case attr_or_empty env w chevron ''aria-label'' of
                  Inl x \<Rightarrow> Inl x
                | Inr aria_label \<Rightarrow>
                    (let has_filled = sublist ''filled'' classes;
                         is_completed = sublist ''Activity completed'' aria_label
                     in Inr (has_filled \<and> is_completed)))))\<close>

text \<open>
  The \<open>for _ in range(5)\<close> loop, counting the levels left. A
  \<open>NoSuchElementException\<close> in the level's check is passed over; any other exception
  reaches the outer handler, which returns \<open>False\<close>. A parent that cannot be found
  breaks the loop.
\<close>

fun is_complete_loop :: "'w env \<Rightarrow> 'w \<Rightarrow> elem \<Rightarrow> nat \<Rightarrow> bool" where
  "is_complete_loop env w current 0 = False"
| "is_complete_loop env w current (Suc n) =
     (let r = chevron_strict_check env w current
      in if r = Inr True then True
         else if r = Inr False \<or> r = Inl NoSuchElementException then
           (case find_element env w (Some current) XPATH ''..'' of
              Inl _ \<Rightarrow> False
            | Inr parent \<Rightarrow> is_complete_loop env w parent n)
         else False)"

definition is_complete :: "'w env \<Rightarrow> 'w \<Rightarrow> elem \<Rightarrow> bool" where
  "is_complete env w animation = is_complete_loop env w animation 5"

function play_loop :: "'w env \<Rightarrow> elem \<Rightarrow> nat \<Rightarrow> nat \<Rightarrow> 'w state \<Rightarrow> bool \<times> 'w state" where
  "play_loop env animation max_attempts attempt s =
     (if attempt < max_attempts then
        if should_stop s then (False, s)
        else
          (let attempt = attempt + 1;
               s1 = snd (bell_curve_delay env 2000 (Some 100) (Some 1800) (Some 2200) s);
               s2 = snd (click_play_button env animation s1);
               s3 = snd (bell_curve_delay env 200 (Some 50) (Some 100) (Some 300) s2)
           in if is_complete env (world s3) animation then (True, s3)
              else play_loop env animation max_attempts attempt s3)
      else (False, s))"
  by pat_completeness auto
termination
  by (relation "measure (\<lambda>(env, animation, max_attempts, attempt, s). max_attempts - attempt)")
    auto

declare play_loop.simps [simp del]

definition play_until_complete :: "'w env \<Rightarrow> elem \<Rightarrow> 'w state \<Rightarrow> bool \<times> 'w state" where
  "play_until_complete env animation s =
     (let max_attempts = MAX_RETRIES; attempt = 0
      in play_loop env animation max_attempts attempt s)"

definition solve_animation :: "'w env \<Rightarrow> elem \<Rightarrow> 'w state \<Rightarrow> bool \<times> 'w state" where
  "solve_animation env animation s =
     (case click_start_button env animation s of
        (False, s1) \<Rightarrow> (False, s1)
      | (True, s1) \<Rightarrow>
          (let s2 = enable_2x_speed env animation s1
           in play_until_complete env animation s2))"



section \<open>solvers/short_answer_solver.py\<close>

definition find_show_answer_button :: "'w env \<Rightarrow> 'w \<Rightarrow> elem \<Rightarrow> exn + elem option" where
  "find_show_answer_button env w question =
     (case find_element env w (Some question) CSS_SELECTOR ''button.show-answer-button'' of
        Inl x \<Rightarrow> if x = NoSuchElementException then Inr None else Inl x
      | Inr btn \<Rightarrow> Inr (Some btn))"

text \<open>
  \<open>find_input_field\<close> tries four selectors in turn, each in its own \<open>try\<close> that
  catches \<open>NoSuchElementException\<close> only.
\<close>

fun first_found :: "'w env \<Rightarrow> 'w \<Rightarrow> elem \<Rightarrow> string list \<Rightarrow> exn + elem option" where
  "first_found env w question [] = Inr None"
| "first_found env w question (selector # selectors) =
     (case find_element env w (Some question) CSS_SELECTOR selector of
        Inl x \<Rightarrow>
          if x = NoSuchElementException then first_found env w question selectors else Inl x
      | Inr field \<Rightarrow> Inr (Some field))"

definition find_input_field :: "'w env \<Rightarrow> 'w \<Rightarrow> elem \<Rightarrow> exn + elem option" where
  \<open>find_input_field env w question =
     first_found env w question
       [''textarea.zb-text-area'', ''textarea'', ''input.zb-input'', ''input[type="text"]'']\<close>

definition find_check_button :: "'w env \<Rightarrow> 'w \<Rightarrow> elem \<Rightarrow> exn + elem option" where
  "find_check_button env w question =
     (case find_element env w (Some question) CSS_SELECTOR ''button.check-button'' of
        Inl x \<Rightarrow> if x = NoSuchElementException then Inr None else Inl x
      | Inr btn \<Rightarrow> Inr (Some btn))"

definition reveal_answer :: "'w env \<Rightarrow> elem \<Rightarrow> 'w state \<Rightarrow> bool \<times> 'w state" where
  "reveal_answer env show_answer_btn s =
     (case safe_click env show_answer_btn s of
        (Some _, s1) \<Rightarrow> (False, s1)
      | (None, s1) \<Rightarrow>
          (let s2 = snd (bell_curve_delay env 150 (Some 30) (Some 100) (Some 250) s1)
           in case safe_click env show_answer_btn s2 of
                (Some _, s3) \<Rightarrow> (False, s3)
              | (None, s3) \<Rightarrow>
                  (True, snd (bell_curve_delay env 300 (Some 75) (Some 200) (Some 500) s3))))"

text \<open>
  \<open>extract_answer\<close>: a \<open>NoSuchElementException\<close> anywhere in the first attempt leads
  to the alternative selector, whose failures are all swallowed; any other exception
  leaves the function. \<open>None.strip()\<close> on a missing \<open>innerHTML\<close> is an
  \<open>AttributeError\<close>.
\<close>

definition extract_answer :: "'w env \<Rightarrow> 'w \<Rightarrow> elem \<Rightarrow> exn + string option" where
  "extract_answer env w question =
     (let first_try =
            (case find_element env w (Some question) CSS_SELECTOR
                    ''div.answers span.forfeit-answer'' of
               Inl x \<Rightarrow> Inl x
             | Inr answer_elem \<Rightarrow>
                 (case text_of env w answer_elem of
                    Inl x \<Rightarrow> Inl x
                  | Inr t \<Rightarrow>
                      (let answer = strip t
                       in if answer \<noteq> [] then Inr (Some answer)
                          else
                            (case get_attribute env w answer_elem ''innerHTML'' of
                               Inl x \<Rightarrow> Inl x
                             | Inr None \<Rightarrow> Inl AttributeError
                             | Inr (Some h) \<Rightarrow>
                                 (let answer = strip h
                                  in Inr (if answer \<noteq> [] then Some answer else None))))))
      in case first_try of
           Inr r \<Rightarrow> Inr r
         | Inl x \<Rightarrow>
             if x = NoSuchElementException then
               (case find_element env w (Some question) CSS_SELECTOR ''span.forfeit-answer'' of
                  Inl _ \<Rightarrow> Inr None
                | Inr answer_elem \<Rightarrow>
                    (case text_of env w answer_elem of
                       Inl _ \<Rightarrow> Inr None
                     | Inr t \<Rightarrow>
                         (let answer = strip t
                          in if answer \<noteq> [] then Inr (Some answer) else Inr None)))
             else Inl x)"

definition type_answer :: "'w env \<Rightarrow> elem \<Rightarrow> string \<Rightarrow> 'w state \<Rightarrow> bool \<times> 'w state" where
  "type_answer env input_field answer s =
     (case perform_action env (ExecuteScript ScrollIntoView input_field) s of
        (Some _, s1) \<Rightarrow> (False, s1)
      | (None, s1) \<Rightarrow>
          (let s2 = snd (bell_curve_delay env 200 (Some 50) (Some 100) (Some 350) s1)
           in case perform_action env (ClearField input_field) s2 of
                (Some _, s3) \<Rightarrow> (False, s3)
              | (None, s3) \<Rightarrow>
                  (let s4 = snd (bell_curve_delay env 100 (Some 30) (Some 50) (Some 200) s3)
                   in case perform_action env (SendKeys input_field answer) s4 of
                        (Some _, s5) \<Rightarrow> (False, s5)
                      | (None, s5) \<Rightarrow>
                          (case perform_action env (ExecuteScript DispatchInput input_field)
                                  s5 of
                             (Some _, s6) \<Rightarrow> (False, s6)
                           | (None, s6) \<Rightarrow>
                               (True, snd (bell_curve_delay env 200 (Some 60) (Some 100)
                                             (Some 350) s6))))))"

definition submit_answer :: "'w env \<Rightarrow> elem \<Rightarrow> 'w state \<Rightarrow> bool \<times> 'w state" where
  "submit_answer env check_btn s =
     (case safe_click env check_btn s of
        (Some _, s1) \<Rightarrow> (False, s1)
      | (None, s1) \<Rightarrow>
          (True, snd (bell_curve_delay env 600 (Some 150) (Some 400) (Some 1000) s1)))"

text \<open>
  The \<open>for _ in range(3)\<close> loop of \<open>verify_completion\<close>, counting the levels left;
  every exception is swallowed.
\<close>

fun verify_levels :: "'w env \<Rightarrow> 'w \<Rightarrow> elem \<Rightarrow> nat \<Rightarrow> bool" where
  "verify_levels env w parent 0 = False"
| "verify_levels env w parent (Suc n) =
     (if chevron_has_filled env w parent ''div.zb-chevron'' = Inr True then True
      else
        (case find_element env w (Some parent) XPATH ''..'' of
           Inl _ \<Rightarrow> False
         | Inr p \<Rightarrow> verify_levels env w p n))"

function verify_loop :: "'w env \<Rightarrow> elem \<Rightarrow> nat \<Rightarrow> 'w state \<Rightarrow> bool \<times> 'w state" where
  "verify_loop env question wait_time s =
     (if wait_time < max_wait then
        if should_stop s then (False, s)
        else if verify_levels env (world s) question 3 then (True, s)
        else
          (let s1 = snd (bell_curve_delay env 100 (Some 25) (Some 50) (Some 150) s);
               wait_time = float_add wait_time check_interval
           in verify_loop env question wait_time s1)
      else (False, s))"
  by pat_completeness auto
termination
proof (relation "measure (\<lambda>(env, question, wait_time, s). max_wait - wait_time)")
  show "wf (measure (\<lambda>(env :: 'w env, question :: elem, wait_time, s :: 'w state).
              max_wait - wait_time))"
    by simp
next
  fix env :: "'w env" and question :: elem and wait_time xa :: nat and s x :: "'w state"
  assume w: "wait_time < max_wait"
    and xa: "xa = float_add wait_time check_interval"
  have bl: "bit_length n \<le> k" if "n < 2 ^ k" for n k
    using that
  proof (induction k arbitrary: n)
    case 0
    then show ?case by (simp add: bit_length.simps)
  next
    case (Suc k)
    show ?case
    proof (cases "n = 0")
      case True
      then show ?thesis by (simp add: bit_length.simps)
    next
      case False
      have "n div 2 < 2 ^ k" using Suc.prems by auto
      then have "bit_length (n div 2) \<le> k" by (rule Suc.IH)
      then show ?thesis using False by (subst bit_length.simps) simp
    qed
  qed
  have w': "wait_time < 2 ^ 57" using w by (simp add: max_wait_def float_2_0_def)
  have c: "float_0_1 = 7205759403792794" by (simp add: float_0_1_def)
  let ?m = "wait_time + float_0_1"
  let ?k = "bit_length ?m - 53"
  have "?m < 2 ^ 58" using w' c by simp
  then have "bit_length ?m \<le> 58" by (rule bl)
  then have "(2::nat) ^ ?k \<le> 2 ^ 5" by (intro power_increasing) auto
  then have u: "(2::nat) ^ ?k \<le> 32" by simp
  have r: "?m mod 2 ^ ?k < 2 ^ ?k" by simp
  have m: "?m div 2 ^ ?k * 2 ^ ?k + ?m mod 2 ^ ?k = ?m" by (rule div_mult_mod_eq)
  have "?m - 31 \<le> ?m div 2 ^ ?k * 2 ^ ?k" using r m u by linarith
  moreover have "?m div 2 ^ ?k * 2 ^ ?k \<le> round_half_even ?m ?k"
    by (simp add: round_half_even_def Let_def)
  ultimately have "?m - 31 \<le> round_half_even ?m ?k" by (rule order_trans)
  then have "?m - 31 \<le> float_add wait_time float_0_1" by (simp add: float_add_def Let_def)
  then have "wait_time < float_add wait_time float_0_1" using c by linarith
  then show "((env, question, xa, x), (env, question, wait_time, s))
             \<in> measure (\<lambda>(env, question, wait_time, s). max_wait - wait_time)"
    using w xa by (simp add: check_interval_def diff_less_mono2)
qed

declare verify_loop.simps [simp del]

definition verify_completion :: "'w env \<Rightarrow> elem \<Rightarrow> 'w state \<Rightarrow> bool \<times> 'w state" where
  "verify_completion env question s =
     (let wait_time = 0 in verify_loop env question wait_time s)"

text \<open>
  \<open>solve_question\<close> of the short-answer solver; the outer handler turns every
  exception into \<open>False\<close>.
\<close>

definition short_answer_solve_question ::
  "'w env \<Rightarrow> elem \<Rightarrow> 'w state \<Rightarrow> bool \<times> 'w state" where
  "short_answer_solve_question env question s =
     (case find_show_answer_button env (world s) question of
        Inl _ \<Rightarrow> (False, s)
      | Inr show_answer_btn \<Rightarrow>
          (case find_input_field env (world s) question of
             Inl _ \<Rightarrow> (False, s)
           | Inr input_field \<Rightarrow>
               (case find_check_button env (world s) question of
                  Inl _ \<Rightarrow> (False, s)
                | Inr check_btn \<Rightarrow>
                    (case (show_answer_btn, input_field, check_btn) of
                       (Some show_btn, Some field, Some chk) \<Rightarrow>
                         (case reveal_answer env show_btn s of
                            (False, s1) \<Rightarrow> (False, s1)
                          | (True, s1) \<Rightarrow>
                              (case extract_answer env (world s1) question of
                                 Inl _ \<Rightarrow> (False, s1)
                               | Inr None \<Rightarrow> (False, s1)
                               | Inr (Some answer) \<Rightarrow>
                                   (case type_answer env field answer s1 of
                                      (False, s2) \<Rightarrow> (False, s2)
                                    | (True, s2) \<Rightarrow>
                                        (case submit_answer env chk s2 of
                                           (False, s3) \<Rightarrow> (False, s3)
                                         | (True, s3) \<Rightarrow>
                                             verify_completion env question s3))))
                     | _ \<Rightarrow> (False, s)))))"



section \<open>main.py: filtering\<close>

definition type_map :: "string \<rightharpoonup> string" where
  "type_map =
     [''Solve Radio Questions'' \<mapsto> ''radio'',
      ''Solve Animations'' \<mapsto> ''animation'',
      ''Solve Short Answer'' \<mapsto> ''short_answer'']"

text \<open>
  The loop of \<open>filter_questions\<close>, with the list \<open>filtered\<close> as accumulator.
  \<open>type_map.get(action)\<close> is \<open>None\<close> for an action outside the table, and a
  question's type never equals \<open>None\<close>.
\<close>

fun filter_loop :: "question list \<Rightarrow> string \<Rightarrow> bool \<Rightarrow> question list \<Rightarrow> question list" where
  "filter_loop [] action force_mode filtered = filtered"
| "filter_loop (q # questions) action force_mode filtered =
     (if action \<notin> set [''Solve All On Page'', ''Solve All (Continuous)'']
         \<and> Some (q_type q) \<noteq> type_map action
      then filter_loop questions action force_mode filtered
      else if \<not> force_mode \<and> q_completed q
      then filter_loop questions action force_mode filtered
      else filter_loop questions action force_mode (filtered @ [q]))"

definition filter_questions :: "question list \<Rightarrow> string \<Rightarrow> bool \<Rightarrow> question list" where
  "filter_questions questions action force_mode = filter_loop questions action force_mode []"

text \<open>
  The specification's wording of the type test, for comparison with the code: the mode is
  one of the Solve-All variants, or the record's kind is the target kind of the mode.
\<close>

definition kind_matches_mode :: "string \<Rightarrow> string \<Rightarrow> bool" where
  "kind_matches_mode action kind \<longleftrightarrow>
     action = ''Solve All On Page'' \<or> action = ''Solve All (Continuous)''
     \<or> (action = ''Solve Radio Questions'' \<and> kind = ''radio'')
     \<or> (action = ''Solve Animations'' \<and> kind = ''animation'')
     \<or> (action = ''Solve Short Answer'' \<and> kind = ''short_answer'')"

section \<open>main.py: routing and the two run modes\<close>












section \<open>Reading the log\<close>

text \<open>
  Measures on the log of calls. A settle delay is a sleep of at least 1.8 seconds: the
  play loop's \<open>bell_curve_delay(2000, 100, 1800, 2200)\<close> is the only delay of the
  animation solver that long. An activation of an element is a click on it that did not
  raise, by the driver or by the JavaScript fallback.
\<close>

type_synonym event = "action \<times> exn option"

definition is_sleep :: "event \<Rightarrow> bool" where
  "is_sleep ev = (case fst ev of Sleep x \<Rightarrow> True | _ \<Rightarrow> False)"

definition is_settle :: "event \<Rightarrow> bool" where
  "is_settle ev = (case fst ev of Sleep x \<Rightarrow> 18 / 10 \<le> x | _ \<Rightarrow> False)"

definition settle_count :: "event list \<Rightarrow> nat" where
  "settle_count evs = length (filter is_settle evs)"

definition activated :: "elem \<Rightarrow> event \<Rightarrow> bool" where
  "activated e ev \<longleftrightarrow> snd ev = None \<and> (fst ev = Click e \<or> fst ev = ExecuteScript JsClick e)"

definition activations :: "elem \<Rightarrow> event list \<Rightarrow> nat" where
  "activations e evs = length (filter (activated e) evs)"

fun scroll_target :: "event \<Rightarrow> elem list" where
  "scroll_target (ExecuteScript ScrollIntoView e, r) = [e]"
| "scroll_target ev = []"

fun click_target :: "event \<Rightarrow> elem list" where
  "click_target (Click e, r) = [e]"
| "click_target ev = []"

fun js_click_target :: "event \<Rightarrow> elem list" where
  "js_click_target (ExecuteScript JsClick e, r) = [e]"
| "js_click_target ev = []"

definition scrolled :: "event list \<Rightarrow> elem list" where
  "scrolled evs = concat (map scroll_target evs)"

definition clicked :: "event list \<Rightarrow> elem list" where
  "clicked evs = concat (map click_target evs)"

definition js_clicked :: "event list \<Rightarrow> elem list" where
  "js_clicked evs = concat (map js_click_target evs)"

text \<open>
  \<open>attempts_in_order evs es\<close>: the scroll calls, the driver clicks and the JavaScript
  clicks of \<open>evs\<close> each go to elements of \<open>es\<close>, in the order of \<open>es\<close>, at most one
  call of each kind per element of \<open>es\<close>.
\<close>

definition attempts_in_order :: "event list \<Rightarrow> elem list \<Rightarrow> bool" where
  "attempts_in_order evs es \<longleftrightarrow>
     subseq (scrolled evs) es \<and> subseq (clicked evs) es \<and> subseq (js_clicked evs) es"


text \<open>The element reached from \<open>e\<close> by \<open>k\<close> steps of \<open>find_element(By.XPATH, '..')\<close>.\<close>

fun ancestor :: "'w env \<Rightarrow> 'w \<Rightarrow> elem \<Rightarrow> nat \<Rightarrow> elem option" where
  "ancestor env w e 0 = Some e"
| "ancestor env w e (Suc k) =
     (case find_element env w (Some e) XPATH ''..'' of
        Inl _ \<Rightarrow> None
      | Inr parent \<Rightarrow> ancestor env w parent k)"

text \<open>
  The two signals of the strict completion test, read off a chevron element as
  \<open>is_complete\<close> reads them.
\<close>

definition has_filled_marker :: "'w env \<Rightarrow> 'w \<Rightarrow> elem \<Rightarrow> bool" where
  "has_filled_marker env w chevron =
     (case attr_or_empty env w chevron ''class'' of
        Inl _ \<Rightarrow> False
      | Inr classes \<Rightarrow> sublist ''filled'' classes)"

definition has_completed_label :: "'w env \<Rightarrow> 'w \<Rightarrow> elem \<Rightarrow> bool" where
  "has_completed_label env w chevron =
     (case attr_or_empty env w chevron ''aria-label'' of
        Inl _ \<Rightarrow> False
      | Inr aria_label \<Rightarrow> sublist ''Activity completed'' aria_label)"

text \<open>
  The specification's strict predicate: within \<open>n\<close> levels above the animation (the
  animation itself included) some chevron has both signals at once.
\<close>

definition both_signals_within :: "'w env \<Rightarrow> 'w \<Rightarrow> elem \<Rightarrow> nat \<Rightarrow> bool" where
  \<open>both_signals_within env w animation n \<longleftrightarrow>
     (\<exists>k<n. case ancestor env w animation k of
               None \<Rightarrow> False
             | Some cur \<Rightarrow>
                 (case find_element env w (Some cur) CSS_SELECTOR
                         ''div[class*="zb-chevron"][class*="title-bar-chevron"]'' of
                    Inl _ \<Rightarrow> False
                  | Inr chevron \<Rightarrow>
                      has_filled_marker env w chevron \<and> has_completed_label env w chevron))\<close>

section \<open>Bounded polling, for comparison\<close>

text \<open>
  \<open>runs_exactly step n w\<close>: a loop \<open>while wait_time < max_wait\<close> whose pass turns
  \<open>wait_time\<close> into \<open>step wait_time\<close> makes exactly \<open>n\<close> passes from \<open>w\<close>, if no
  pass returns early.
\<close>

fun runs_exactly :: "(nat \<Rightarrow> nat) \<Rightarrow> nat \<Rightarrow> nat \<Rightarrow> bool" where
  "runs_exactly step 0 w \<longleftrightarrow> \<not> w < max_wait"
| "runs_exactly step (Suc n) w \<longleftrightarrow> w < max_wait \<and> runs_exactly step n (step w)"

text \<open>
  The feedback poll and the completion poll with a plain budget of \<open>n\<close> checks in place
  of the time counter: the body of the loop of the code, run at most \<open>n\<close> times.
\<close>

fun poll_feedback_at_most ::
  "nat \<Rightarrow> 'w env \<Rightarrow> string set \<Rightarrow> 'w state \<Rightarrow> bool \<times> 'w state" where
  "poll_feedback_at_most 0 env old_messages s = (False, s)"
| "poll_feedback_at_most (Suc n) env old_messages s =
     (if should_stop s then (False, s)
      else if new_feedback env (world s) ''div.zb-explanation.correct'' old_messages
      then (True, s)
      else if new_feedback env (world s) ''div.zb-explanation.incorrect'' old_messages
      then (False, s)
      else poll_feedback_at_most n env old_messages
             (snd (bell_curve_delay env 100 (Some 25) (Some 50) (Some 150) s)))"

fun poll_chevron_at_most :: "nat \<Rightarrow> 'w env \<Rightarrow> elem \<Rightarrow> 'w state \<Rightarrow> bool \<times> 'w state" where
  "poll_chevron_at_most 0 env question s = (False, s)"
| "poll_chevron_at_most (Suc n) env question s =
     (if should_stop s then (False, s)
      else if verify_levels env (world s) question 3 then (True, s)
      else poll_chevron_at_most n env question
             (snd (bell_curve_delay env 100 (Some 25) (Some 50) (Some 150) s)))"

section \<open>An example session\<close>

text \<open>
  A small page for the concrete instances below; its state is a clock. Element 20
  carries both the animation marker and the shape of a choice question; 30 is a choice
  question with the radios 1, 2 and 3; 40 is a short-answer question with its button 41,
  text area 42 and check button 43; 60 is an animation whose chevron 61 is filled and
  labelled as completed; 70 is an animation whose chevron 71 is filled but not labelled
  as completed. Every call succeeds, the sample of the random
  generator is the mean, and nobody presses Stop.
\<close>

definition example_env :: "nat env" where
  \<open>example_env =
     \<lparr>find_element = (\<lambda>w scope loc selector.
          if loc = XPATH \<and> scope \<in> {Some 1, Some 2, Some 3} then Inr 30
          else if scope = Some 40 \<and> selector = ''button.show-answer-button'' then Inr 41
          else if scope = Some 40 \<and> selector = ''textarea.zb-text-area'' then Inr 42
          else if scope = Some 40 \<and> selector = ''button.check-button'' then Inr 43
          else if scope = Some 60
                  \<and> selector = ''div[class*="zb-chevron"][class*="title-bar-chevron"]''
          then Inr 61
          else if scope = Some 70
                  \<and> selector = ''div[class*="zb-chevron"][class*="title-bar-chevron"]''
          then Inr 71
          else Inl NoSuchElementException),
       find_elements = (\<lambda>w scope loc selector.
          if selector = ''input[type="radio"]'' \<and> scope \<in> {Some 20, Some 30}
          then Inr [1, 2, 3] else Inr []),
       get_attribute = (\<lambda>w e name.
          if e = 20 \<and> name = ''class''
          then Inr (Some ''animation-player-content-resource question-choices'')
          else if e \<in> {20, 30} \<and> name = ''role'' then Inr (Some ''radiogroup'')
          else if e \<in> {61, 71} \<and> name = ''class''
          then Inr (Some ''zb-chevron title-bar-chevron filled'')
          else if e = 61 \<and> name = ''aria-label'' then Inr (Some ''Activity completed'')
          else if e = 71 \<and> name = ''aria-label'' then Inr (Some ''Activity not completed'')
          else Inr None),
       text_of = (\<lambda>w e. Inr []),
       is_selected = (\<lambda>w e. Inr False),
       perform = (\<lambda>w a. (None, Suc w)),
       sleep = (\<lambda>w secs. Suc w),
       gauss = (\<lambda>w mean_ms std_dev_ms. mean_ms),
       stop_requested = (\<lambda>w. False)\<rparr>\<close>

definition example_state :: "nat state" where
  "example_state = \<lparr>world = 0, stop_event = False, trace = []\<rparr>"



section \<open>Properties\<close>

subsection \<open>Filtering\<close>

lemma type_map_matches:
  "(action \<in> set [''Solve All On Page'', ''Solve All (Continuous)'']
      \<or> Some kind = type_map action) \<longleftrightarrow> kind_matches_mode action kind"
  by (auto simp: type_map_def kind_matches_mode_def split: if_splits)

lemma filter_loop_eq:
  "filter_loop questions action force_mode filtered =
     filtered @ filter (\<lambda>q. kind_matches_mode action (q_type q) \<and> (force_mode \<or> \<not> q_completed q))
       questions"
proof (induction questions arbitrary: filtered)
  case Nil
  show ?case by simp
next
  case (Cons q questions)
  have m: "(action \<notin> set [''Solve All On Page'', ''Solve All (Continuous)'']
             \<and> Some (q_type q) \<noteq> type_map action) \<longleftrightarrow> \<not> kind_matches_mode action (q_type q)"
    using type_map_matches [of action "q_type q"] by blast
  show ?case
    unfolding filter_loop.simps m Cons.IH by simp
qed

text \<open>
  C1. The filtered output is the input list restricted, in its order, to the records
  whose kind matches the mode (every kind for the two Solve-All modes) and that are not
  completed unless force mode is on. The result depends on nothing but the three arguments.
\<close>

theorem filter_questions_spec:
  "filter_questions questions action force_mode =
     filter (\<lambda>q. kind_matches_mode action (q_type q) \<and> (force_mode \<or> \<not> q_completed q)) questions"
  by (simp add: filter_questions_def filter_loop_eq)

theorem filter_questions_spec_witness:
  "filter_questions
     [\<lparr>q_index = 0, q_type = ''radio'', q_element = 7, q_completed = False, q_details = []\<rparr>,
      \<lparr>q_index = 1, q_type = ''animation'', q_element = 8, q_completed = False, q_details = []\<rparr>,
      \<lparr>q_index = 2, q_type = ''radio'', q_element = 9, q_completed = True, q_details = []\<rparr>]
     ''Solve Radio Questions'' False =
     [\<lparr>q_index = 0, q_type = ''radio'', q_element = 7, q_completed = False, q_details = []\<rparr>]"
  using filter_questions_spec
    [of "[\<lparr>q_index = 0, q_type = ''radio'', q_element = 7, q_completed = False, q_details = []\<rparr>,
          \<lparr>q_index = 1, q_type = ''animation'', q_element = 8, q_completed = False, q_details = []\<rparr>,
          \<lparr>q_index = 2, q_type = ''radio'', q_element = 9, q_completed = True, q_details = []\<rparr>]"
        "''Solve Radio Questions''" False]
  by (simp add: kind_matches_mode_def)

subsection \<open>The delay generator\<close>

lemma bell_curve_delay_returns:
  assumes "0 \<le> min_ms"
  shows "bell_curve_delay env mean_ms (Some std_dev_ms) (Some min_ms) (Some max_ms) s =
           (Inr (max min_ms (min max_ms (gauss env (world s) mean_ms std_dev_ms))),
            time_sleep env
              (max min_ms (min max_ms (gauss env (world s) mean_ms std_dev_ms)) / 1000) s)"
proof -
  have "0 \<le> max min_ms (min max_ms (gauss env (world s) mean_ms std_dev_ms))"
    using assms by simp
  then show ?thesis
    by (simp add: bell_curve_delay_def Let_def not_less [symmetric])
qed

text \<open>
  C9. With explicit bounds \<open>min_ms \<le> max_ms\<close>, whatever the random source gives, a
  returned delay lies between the bounds, and the call does return when the lower bound
  is not negative (a negative delay makes \<open>time.sleep\<close> raise instead). Omitted
  parameters default to \<open>mean / 4\<close>, \<open>mean / 2\<close> and \<open>mean * 2\<close>.
\<close>

theorem bell_curve_delay_within_bounds:
  assumes "min_ms \<le> max_ms"
  shows "(\<forall>d. fst (bell_curve_delay env mean_ms std_dev_ms (Some min_ms) (Some max_ms) s) = Inr d
            \<longrightarrow> min_ms \<le> d \<and> d \<le> max_ms)
         \<and> (0 \<le> min_ms \<longrightarrow>
              (\<exists>d. fst (bell_curve_delay env mean_ms std_dev_ms (Some min_ms) (Some max_ms) s)
                     = Inr d))
         \<and> bell_curve_delay env mean_ms None None None s =
             bell_curve_delay env mean_ms (Some (mean_ms / 4)) (Some (mean_ms / 2))
               (Some (mean_ms * 2)) s"
  using assms by (auto simp: bell_curve_delay_def Let_def)

theorem bell_curve_delay_within_bounds_witness:
  "(100::real) \<le> 400
   \<and> fst (bell_curve_delay example_env 5000 (Some 50) (Some 100) (Some 400) example_state)
       = Inr 400
   \<and> fst (bell_curve_delay example_env 1000 None None None example_state) = Inr 1000"
  using bell_curve_delay_within_bounds [of 100 400 example_env 5000 "Some 50" example_state]
  by (simp add: bell_curve_delay_def Let_def example_env_def example_state_def)

text \<open>
  C10. With \<open>min_ms > max_ms\<close> the lower bound is applied last and wins: whatever the
  random source gives, a returned delay is \<open>min_ms\<close>, above the stated maximum.
\<close>

theorem bell_curve_delay_min_wins:
  assumes "max_ms < min_ms"
  shows "(\<forall>d. fst (bell_curve_delay env mean_ms std_dev_ms (Some min_ms) (Some max_ms) s) = Inr d
            \<longrightarrow> d = min_ms)
         \<and> (0 \<le> min_ms \<longrightarrow>
              fst (bell_curve_delay env mean_ms std_dev_ms (Some min_ms) (Some max_ms) s)
                = Inr min_ms)"
  using assms by (auto simp: bell_curve_delay_def Let_def)

theorem bell_curve_delay_min_wins_witness:
  "(200::real) < 300
   \<and> fst (bell_curve_delay example_env 100 (Some 10) (Some 300) (Some 200) example_state)
       = Inr 300"
  using bell_curve_delay_min_wins [of 200 300 example_env 100 "Some 10" example_state]
  by simp

subsection \<open>The classifier\<close>

text \<open>
  C3. \<open>classify_element\<close> returns at most one record, trying Animation, then
  ShortAnswer, then ChoiceQuestion: an element that passes the animation test is an
  animation whatever else it matches, and an element that passes no test gives
  \<open>None\<close>, not an error.
\<close>

theorem classify_element_priority:
  "(is_animation env w e \<longrightarrow>
      (\<exists>q. classify_element env w e i = Some q \<and> q_type q = ''animation''
           \<and> q_element q = e \<and> q_index q = i))
   \<and> (\<not> is_animation env w e \<and> is_short_answer env w e \<longrightarrow>
      (\<exists>q. classify_element env w e i = Some q \<and> q_type q = ''short_answer''
           \<and> q_element q = e \<and> q_index q = i))
   \<and> (\<not> is_animation env w e \<and> \<not> is_short_answer env w e \<and> is_radio_question env w e \<longrightarrow>
      (\<exists>q. classify_element env w e i = Some q \<and> q_type q = ''radio''
           \<and> q_element q = e \<and> q_index q = i))
   \<and> (\<not> is_animation env w e \<and> \<not> is_short_answer env w e \<and> \<not> is_radio_question env w e \<longrightarrow>
      classify_element env w e i = None)"
  by (simp add: classify_element_def)

lemma example_20_both:
  "is_animation example_env w 20 \<and> is_radio_question example_env w 20"
  by (simp add: is_animation_def is_radio_question_def attr_or_empty_def example_env_def
      sublist_code)

theorem classify_element_priority_witness:
  "is_animation example_env 0 20 \<and> is_radio_question example_env 0 20
   \<and> (\<exists>q. classify_element example_env 0 20 5 = Some q \<and> q_type q = ''animation''
          \<and> q_element q = 20 \<and> q_index q = 5)
   \<and> \<not> is_animation example_env 0 30 \<and> \<not> is_short_answer example_env 0 30
   \<and> (\<exists>q. classify_element example_env 0 30 6 = Some q \<and> q_type q = ''radio''
          \<and> q_element q = 30 \<and> q_index q = 6)
   \<and> classify_element example_env 0 99 7 = None"
proof -
  have a: "\<not> is_animation example_env 0 30" "\<not> is_short_answer example_env 0 30"
    "is_radio_question example_env 0 30"
    by (simp_all add: is_animation_def is_short_answer_def is_radio_question_def
        attr_or_empty_def example_env_def sublist_code)
  have b: "\<not> is_animation example_env 0 99" "\<not> is_short_answer example_env 0 99"
    "\<not> is_radio_question example_env 0 99"
    by (simp_all add: is_animation_def is_short_answer_def is_radio_question_def
        attr_or_empty_def example_env_def sublist_code)
  show ?thesis
    using example_20_both [of 0] a b
      classify_element_priority [of example_env 0 20 5]
      classify_element_priority [of example_env 0 30 6]
      classify_element_priority [of example_env 0 99 7]
    by blast
qed


subsection \<open>Steps of the session\<close>

lemma settle_count_simps [simp]:
  "settle_count [] = 0"
  "settle_count (xs @ ys) = settle_count xs + settle_count ys"
  "settle_count ((Sleep x, r) # evs) = (if 18 / 10 \<le> x then 1 else 0) + settle_count evs"
  "settle_count ((Click e, r) # evs) = settle_count evs"
  "settle_count ((ExecuteScript sc e, r) # evs) = settle_count evs"
  "settle_count ((ClearField e, r) # evs) = settle_count evs"
  "settle_count ((SendKeys e t, r) # evs) = settle_count evs"
  by (simp_all add: settle_count_def is_settle_def)

lemma trace_time_sleep [simp]: "trace (time_sleep env x s) = trace s @ [(Sleep x, None)]"
  by (simp add: time_sleep_def Let_def)

lemma world_time_sleep [simp]: "world (time_sleep env x s) = sleep env (world s) x"
  by (simp add: time_sleep_def Let_def)

lemma trace_perform_action [simp]:
  "trace (snd (perform_action env a s)) = trace s @ [(a, fst (perform_action env a s))]"
  by (simp add: perform_action_def split: prod.split)

lemma time_sleep_sticky: "stop_event s \<Longrightarrow> stop_event (time_sleep env x s)"
  by (simp add: time_sleep_def Let_def)

lemma perform_action_sticky: "stop_event s \<Longrightarrow> stop_event (snd (perform_action env a s))"
  by (simp add: perform_action_def split: prod.split)

lemma time_sleep_quiet:
  "\<forall>w. \<not> stop_requested env w \<Longrightarrow> stop_event (time_sleep env x s) = stop_event s"
  by (simp add: time_sleep_def Let_def)

lemma perform_action_quiet:
  "\<forall>w. \<not> stop_requested env w \<Longrightarrow> stop_event (snd (perform_action env a s)) = stop_event s"
  by (simp add: perform_action_def split: prod.split)

lemma delay_snd:
  "0 \<le> min_ms \<Longrightarrow>
   snd (bell_curve_delay env mean_ms (Some std_dev_ms) (Some min_ms) (Some max_ms) s) =
     time_sleep env
       (max min_ms (min max_ms (gauss env (world s) mean_ms std_dev_ms)) / 1000) s"
  by (simp add: bell_curve_delay_returns)

lemma delay_sticky:
  "stop_event s \<Longrightarrow> stop_event (snd (bell_curve_delay env mean_ms sd mn mx s))"
  by (simp add: bell_curve_delay_def Let_def time_sleep_sticky)

lemma delay_quiet:
  "\<forall>w. \<not> stop_requested env w \<Longrightarrow>
   stop_event (snd (bell_curve_delay env mean_ms sd mn mx s)) = stop_event s"
  by (simp add: bell_curve_delay_def Let_def time_sleep_quiet)

lemma delay_settle:
  assumes "0 \<le> min_ms" "min_ms \<le> max_ms" "max_ms < 1800"
  shows "settle_count
           (trace (snd (bell_curve_delay env mean_ms (Some std_dev_ms) (Some min_ms)
                          (Some max_ms) s)))
         = settle_count (trace s)"
proof -
  have "max min_ms (min max_ms (gauss env (world s) mean_ms std_dev_ms)) \<le> max_ms"
    using assms by simp
  then have "\<not> 18 / 10 \<le> max min_ms (min max_ms (gauss env (world s) mean_ms std_dev_ms)) / 1000"
    using assms by simp
  then show ?thesis using assms by (simp add: delay_snd)
qed

lemma click_with_fallback_sticky:
  "stop_event s \<Longrightarrow> stop_event (snd (click_with_fallback env e m sd mn mx s))"
  by (simp add: click_with_fallback_def case_prod_beta Let_def perform_action_sticky
      delay_sticky split: option.split)

lemma click_with_fallback_quiet:
  "\<forall>w. \<not> stop_requested env w \<Longrightarrow>
   stop_event (snd (click_with_fallback env e m sd mn mx s)) = stop_event s"
  by (simp add: click_with_fallback_def case_prod_beta Let_def perform_action_quiet
      delay_quiet split: option.split)

lemma click_with_fallback_settle:
  assumes "0 \<le> mn" "mn \<le> mx" "mx < 1800"
  shows "settle_count (trace (snd (click_with_fallback env e m sd mn mx s)))
         = settle_count (trace s)"
  using assms
  by (simp add: click_with_fallback_def case_prod_beta Let_def delay_settle
      split: option.split)

lemma safe_click_sticky: "stop_event s \<Longrightarrow> stop_event (snd (safe_click env e s))"
  by (simp add: safe_click_def click_with_fallback_sticky)

lemma safe_click_quiet:
  "\<forall>w. \<not> stop_requested env w \<Longrightarrow> stop_event (snd (safe_click env e s)) = stop_event s"
  by (simp add: safe_click_def click_with_fallback_quiet)

lemma safe_click_settle:
  "settle_count (trace (snd (safe_click env e s))) = settle_count (trace s)"
  by (simp add: safe_click_def click_with_fallback_settle)

subsection \<open>The animation solver\<close>

lemma click_play_button_sticky:
  "stop_event s \<Longrightarrow> stop_event (snd (click_play_button env animation s))"
  by (simp add: click_play_button_def case_prod_beta safe_click_sticky
      split: sum.split option.split)

lemma click_play_button_quiet:
  "\<forall>w. \<not> stop_requested env w \<Longrightarrow>
   stop_event (snd (click_play_button env animation s)) = stop_event s"
  by (simp add: click_play_button_def case_prod_beta safe_click_quiet
      split: sum.split option.split)

lemma click_play_button_settle:
  "settle_count (trace (snd (click_play_button env animation s))) = settle_count (trace s)"
  by (simp add: click_play_button_def case_prod_beta safe_click_settle
      split: sum.split option.split)

text \<open>The state after one full play cycle that starts in \<open>s\<close>.\<close>

lemma play_cycle_settle:
  "settle_count
     (trace (snd (bell_curve_delay env 200 (Some 50) (Some 100) (Some 300)
        (snd (click_play_button env animation
           (snd (bell_curve_delay env 2000 (Some 100) (Some 1800) (Some 2200) s)))))))
   = Suc (settle_count (trace s))"
proof -
  have "(18::real) / 10 \<le> max 1800 (min 2200 g) / 1000" for g
    by simp
  then show ?thesis
    by (simp add: delay_settle click_play_button_settle delay_snd)
qed

lemma play_loop_unfold:
  "play_loop env animation max_attempts attempt s =
     (if attempt < max_attempts then
        if should_stop s then (False, s)
        else
          (let s3 = snd (bell_curve_delay env 200 (Some 50) (Some 100) (Some 300)
                      (snd (click_play_button env animation
                         (snd (bell_curve_delay env 2000 (Some 100) (Some 1800) (Some 2200) s)))))
           in if is_complete env (world s3) animation then (True, s3)
              else play_loop env animation max_attempts (attempt + 1) s3)
      else (False, s))"
  by (subst play_loop.simps) (simp add: Let_def)

lemma play_loop_settle_le:
  "settle_count (trace (snd (play_loop env animation max_attempts attempt s)))
   \<le> settle_count (trace s) + (max_attempts - attempt)"
proof (induction env animation max_attempts attempt s rule: play_loop.induct)
  case (1 env animation max_attempts attempt s)
  let ?s3 = "snd (bell_curve_delay env 200 (Some 50) (Some 100) (Some 300)
        (snd (click_play_button env animation
           (snd (bell_curve_delay env 2000 (Some 100) (Some 1800) (Some 2200) s)))))"
  show ?case
  proof (cases "attempt < max_attempts \<and> \<not> should_stop s \<and> \<not> is_complete env (world ?s3) animation")
    case True
    have le: "settle_count (trace (snd (play_loop env animation max_attempts (attempt + 1) ?s3)))
          \<le> settle_count (trace ?s3) + (max_attempts - (attempt + 1))"
      using True "1.IH" [OF _ _ refl refl refl refl] by blast
    have c: "settle_count (trace ?s3) = Suc (settle_count (trace s))"
      by (rule play_cycle_settle)
    have eq: "play_loop env animation max_attempts attempt s =
              play_loop env animation max_attempts (attempt + 1) ?s3"
      using True by (subst play_loop_unfold) (simp add: Let_def)
    show ?thesis
      unfolding eq using le c True by arith
  next
    case False
    then consider "\<not> attempt < max_attempts" | "attempt < max_attempts" "should_stop s"
      | "attempt < max_attempts" "\<not> should_stop s" "is_complete env (world ?s3) animation"
      by blast
    then show ?thesis
    proof cases
      case 1
      then have "play_loop env animation max_attempts attempt s = (False, s)"
        by (subst play_loop_unfold) simp
      then show ?thesis by simp
    next
      case 2
      then have "play_loop env animation max_attempts attempt s = (False, s)"
        by (subst play_loop_unfold) simp
      then show ?thesis by simp
    next
      case 3
      then have "play_loop env animation max_attempts attempt s = (True, ?s3)"
        by (subst play_loop_unfold) (simp add: Let_def)
      then show ?thesis using 3 by (simp add: play_cycle_settle)
    qed
  qed
qed

lemma play_loop_True:
  "fst (play_loop env animation max_attempts attempt s) \<Longrightarrow>
   is_complete env (world (snd (play_loop env animation max_attempts attempt s))) animation"
proof (induction env animation max_attempts attempt s rule: play_loop.induct)
  case (1 env animation max_attempts attempt s)
  let ?s3 = "snd (bell_curve_delay env 200 (Some 50) (Some 100) (Some 300)
        (snd (click_play_button env animation
           (snd (bell_curve_delay env 2000 (Some 100) (Some 1800) (Some 2200) s)))))"
  consider "\<not> attempt < max_attempts" | "attempt < max_attempts" "should_stop s"
    | "attempt < max_attempts" "\<not> should_stop s" "is_complete env (world ?s3) animation"
    | "attempt < max_attempts" "\<not> should_stop s" "\<not> is_complete env (world ?s3) animation"
    by blast
  then show ?case
  proof cases
    case 1
    then have "play_loop env animation max_attempts attempt s = (False, s)"
      by (subst play_loop_unfold) simp
    then show ?thesis using "1.prems" by simp
  next
    case 2
    then have "play_loop env animation max_attempts attempt s = (False, s)"
      by (subst play_loop_unfold) simp
    then show ?thesis using "1.prems" by simp
  next
    case 3
    then have "play_loop env animation max_attempts attempt s = (True, ?s3)"
      by (subst play_loop_unfold) (simp add: Let_def)
    then show ?thesis using 3 by simp
  next
    case 4
    have eq: "play_loop env animation max_attempts attempt s =
              play_loop env animation max_attempts (attempt + 1) ?s3"
      using 4 by (subst play_loop_unfold) (simp add: Let_def)
    show ?thesis
      unfolding eq using 4 "1.prems" "1.IH" [OF _ _ refl refl refl refl] eq by simp
  qed
qed

lemma play_loop_exhausts:
  assumes "\<forall>w. \<not> is_complete env w animation" "\<forall>w. \<not> stop_requested env w"
  shows "\<not> stop_event s \<Longrightarrow>
         \<not> fst (play_loop env animation max_attempts attempt s)
         \<and> settle_count (trace (snd (play_loop env animation max_attempts attempt s)))
           = settle_count (trace s) + (max_attempts - attempt)"
  using assms
proof (induction env animation max_attempts attempt s rule: play_loop.induct)
  case (1 env animation max_attempts attempt s)
  let ?s3 = "snd (bell_curve_delay env 200 (Some 50) (Some 100) (Some 300)
        (snd (click_play_button env animation
           (snd (bell_curve_delay env 2000 (Some 100) (Some 1800) (Some 2200) s)))))"
  show ?case
  proof (cases "attempt < max_attempts")
    case True
    have ns: "\<not> stop_event ?s3"
      using "1.prems" by (simp add: delay_quiet click_play_button_quiet)
    have nc: "\<not> is_complete env (world ?s3) animation"
      using "1.prems" by simp
    have c: "settle_count (trace ?s3) = Suc (settle_count (trace s))"
      by (rule play_cycle_settle)
    have eq: "play_loop env animation max_attempts attempt s =
              play_loop env animation max_attempts (attempt + 1) ?s3"
      using True nc "1.prems" by (subst play_loop_unfold) (simp add: Let_def should_stop_def)
    have IH: "\<not> fst (play_loop env animation max_attempts (attempt + 1) ?s3)
         \<and> settle_count (trace (snd (play_loop env animation max_attempts (attempt + 1) ?s3)))
           = settle_count (trace ?s3) + (max_attempts - (attempt + 1))"
      using True nc ns "1.prems" "1.IH" [OF _ _ refl refl refl refl]
      by (simp add: should_stop_def)
    show ?thesis
      unfolding eq using IH c True by arith
  next
    case False
    then have "play_loop env animation max_attempts attempt s = (False, s)"
      by (subst play_loop_unfold) simp
    then show ?thesis using False by simp
  qed
qed

lemma chevron_strict_check_True:
  assumes "chevron_strict_check env w cur = Inr True"
  shows \<open>\<exists>chevron. find_element env w (Some cur) CSS_SELECTOR
                ''div[class*="zb-chevron"][class*="title-bar-chevron"]'' = Inr chevron
      \<and> has_filled_marker env w chevron \<and> has_completed_label env w chevron\<close>
proof -
  from assms obtain chevron classes aria_label
    where \<open>find_element env w (Some cur) CSS_SELECTOR
             ''div[class*="zb-chevron"][class*="title-bar-chevron"]'' = Inr chevron\<close>
      and "attr_or_empty env w chevron ''class'' = Inr classes"
      and "attr_or_empty env w chevron ''aria-label'' = Inr aria_label"
      and "sublist ''filled'' classes" "sublist ''Activity completed'' aria_label"
    by (auto simp: chevron_strict_check_def Let_def split: sum.splits)
  then have \<open>find_element env w (Some cur) CSS_SELECTOR
             ''div[class*="zb-chevron"][class*="title-bar-chevron"]'' = Inr chevron
      \<and> has_filled_marker env w chevron \<and> has_completed_label env w chevron\<close>
    by (simp add: has_filled_marker_def has_completed_label_def)
  then show ?thesis by blast
qed

lemma is_complete_loop_sound:
  "is_complete_loop env w current n \<Longrightarrow>
   \<exists>k<n. \<exists>cur. ancestor env w current k = Some cur
                \<and> chevron_strict_check env w cur = Inr True"
proof (induction n arbitrary: current)
  case 0
  then show ?case by simp
next
  case (Suc n)
  show ?case
  proof (cases "chevron_strict_check env w current = Inr True")
    case True
    then have "ancestor env w current 0 = Some current
               \<and> chevron_strict_check env w current = Inr True"
      by simp
    then show ?thesis by blast
  next
    case False
    with Suc.prems obtain parent
      where p: "find_element env w (Some current) XPATH ''..'' = Inr parent"
        and l: "is_complete_loop env w parent n"
      by (auto simp: Let_def split: if_splits sum.splits)
    from Suc.IH [OF l] obtain k cur
      where k: "k < n" "ancestor env w parent k = Some cur"
        "chevron_strict_check env w cur = Inr True"
      by blast
    from k p have "Suc k < Suc n" "ancestor env w current (Suc k) = Some cur" by simp_all
    with k(3) show ?thesis by blast
  qed
qed

lemma is_complete_both_signals:
  "is_complete env w animation \<Longrightarrow> both_signals_within env w animation 5"
proof -
  assume "is_complete env w animation"
  then obtain k cur where k: "k < 5" "ancestor env w animation k = Some cur"
    "chevron_strict_check env w cur = Inr True"
    using is_complete_loop_sound [of env w animation 5] by (auto simp: is_complete_def)
  from chevron_strict_check_True [OF k(3)] k(1,2) show ?thesis
    unfolding both_signals_within_def by (intro exI [of _ k]) auto
qed

lemma never_complete:
  "\<forall>w. \<not> both_signals_within env w animation 5 \<Longrightarrow> \<forall>w. \<not> is_complete env w animation"
  by (auto dest: is_complete_both_signals)

lemma solve_animation_result:
  "fst (solve_animation env animation s) \<Longrightarrow>
   \<exists>s2. fst (play_until_complete env animation s2)"
  by (auto simp: solve_animation_def Let_def split: prod.splits bool.splits)

text \<open>
  C2. \<open>is_complete\<close> is true only if, within five levels from the animation element,
  some chevron has the filled marker and the completed label at once. If that never
  holds, the play loop and the whole record end as failed whatever else happens; and
  unless the run is cancelled, the loop goes through all 60 cycles first.
\<close>

theorem is_complete_strict:
  "(is_complete env w animation \<longrightarrow> both_signals_within env w animation 5)
   \<and> ((\<forall>w. \<not> both_signals_within env w animation 5) \<longrightarrow>
        \<not> fst (play_until_complete env animation s)
        \<and> \<not> fst (solve_animation env animation s)
        \<and> (\<not> stop_event s \<and> (\<forall>w. \<not> stop_requested env w) \<longrightarrow>
             settle_count (trace (snd (play_until_complete env animation s)))
               = settle_count (trace s) + 60))"
proof (intro conjI impI)
  show "both_signals_within env w animation 5" if "is_complete env w animation"
    using that by (rule is_complete_both_signals)
next
  assume never: "\<forall>w. \<not> both_signals_within env w animation 5"
  then have nc: "\<forall>w. \<not> is_complete env w animation"
    by (rule never_complete)
  have np: "\<not> fst (play_until_complete env animation s2)" for s2
    using play_loop_True [of env animation MAX_RETRIES 0 s2] nc
    by (auto simp: play_until_complete_def Let_def)
  show "\<not> fst (play_until_complete env animation s)" by (rule np)
  show "\<not> fst (solve_animation env animation s)"
    using solve_animation_result np by blast
  show "settle_count (trace (snd (play_until_complete env animation s)))
          = settle_count (trace s) + 60"
    if "\<not> stop_event s \<and> (\<forall>w. \<not> stop_requested env w)"
    using play_loop_exhausts [of env animation s MAX_RETRIES 0] nc that
    by (simp add: play_until_complete_def Let_def MAX_RETRIES_def)
qed

lemma example_ancestor:
  "e \<notin> {1, 2, 3} \<Longrightarrow> ancestor example_env w e k = (if k = 0 then Some e else None)"
  by (cases k) (simp_all add: example_env_def)

lemma example_chevrons:
  \<open>find_element example_env w (Some 60) CSS_SELECTOR
     ''div[class*="zb-chevron"][class*="title-bar-chevron"]'' = Inr 61\<close>
  \<open>find_element example_env w (Some 70) CSS_SELECTOR
     ''div[class*="zb-chevron"][class*="title-bar-chevron"]'' = Inr 71\<close>
  "attr_or_empty example_env w 61 ''class'' = Inr ''zb-chevron title-bar-chevron filled''"
  "attr_or_empty example_env w 71 ''class'' = Inr ''zb-chevron title-bar-chevron filled''"
  "attr_or_empty example_env w 61 ''aria-label'' = Inr ''Activity completed''"
  "attr_or_empty example_env w 71 ''aria-label'' = Inr ''Activity not completed''"
  by (simp_all add: example_env_def attr_or_empty_def)

lemma example_quiet:
  "\<not> stop_event example_state" "\<forall>w. \<not> stop_requested example_env w"
  "trace example_state = []"
  by (simp_all add: example_state_def example_env_def)

lemma example_70_one_signal:
  "has_filled_marker example_env w 71 \<and> \<not> has_completed_label example_env w 71
   \<and> \<not> both_signals_within example_env w 70 5"
proof -
  have a: "has_filled_marker example_env w 71" "\<not> has_completed_label example_env w 71"
    by (simp_all add: has_filled_marker_def has_completed_label_def example_chevrons
        sublist_code)
  have \<open>\<not> (case ancestor example_env w 70 k of
              None \<Rightarrow> False
            | Some cur \<Rightarrow>
                (case find_element example_env w (Some cur) CSS_SELECTOR
                        ''div[class*="zb-chevron"][class*="title-bar-chevron"]'' of
                   Inl _ \<Rightarrow> False
                 | Inr chevron \<Rightarrow>
                     has_filled_marker example_env w chevron
                     \<and> has_completed_label example_env w chevron))\<close> for k
    using a by (simp add: example_ancestor example_chevrons)
  then have "\<not> both_signals_within example_env w 70 5"
    unfolding both_signals_within_def by blast
  with a show ?thesis by simp
qed

lemma example_60_complete: "is_complete example_env w 60"
proof -
  have "chevron_strict_check example_env w 60 = Inr True"
    by (simp add: chevron_strict_check_def example_chevrons sublist_code)
  then have "is_complete_loop example_env w 60 (Suc 4)"
    by (simp only: is_complete_loop.simps Let_def) simp
  then show ?thesis by (simp add: is_complete_def)
qed

theorem is_complete_strict_witness:
  "is_complete example_env 0 60 \<and> both_signals_within example_env 0 60 5
   \<and> (\<forall>w. \<not> both_signals_within example_env w 70 5)
   \<and> \<not> stop_event example_state \<and> (\<forall>w. \<not> stop_requested example_env w)
   \<and> \<not> fst (play_until_complete example_env 70 example_state)
   \<and> \<not> fst (solve_animation example_env 70 example_state)
   \<and> settle_count (trace (snd (play_until_complete example_env 70 example_state)))
       = settle_count (trace example_state) + 60"
proof -
  have a: "\<forall>w. \<not> both_signals_within example_env w 70 5"
    using example_70_one_signal by blast
  have c: "is_complete example_env 0 60"
    by (rule example_60_complete)
  from is_complete_strict [of example_env 0 60 example_state] c
  have d: "both_signals_within example_env 0 60 5" by blast
  from is_complete_strict [of example_env 0 70 example_state] a example_quiet(1,2)
  have e: "\<not> fst (play_until_complete example_env 70 example_state)
           \<and> \<not> fst (solve_animation example_env 70 example_state)
           \<and> settle_count (trace (snd (play_until_complete example_env 70 example_state)))
               = settle_count (trace example_state) + 60"
    by blast
  from a c d e example_quiet(1,2) show ?thesis by blast
qed

text \<open>
  C6. The play loop goes through at most \<open>MAX_RETRIES = 60\<close> cycles for a record. It
  reports success only when the strict predicate holds on the page; after 60 cycles
  without it the result is the value \<open>False\<close>: nothing is raised and no further cycle
  is run.
\<close>

theorem play_until_complete_bounded:
  "MAX_RETRIES = 60
   \<and> settle_count (trace (snd (play_until_complete env animation s)))
       \<le> settle_count (trace s) + 60
   \<and> (fst (play_until_complete env animation s) \<longrightarrow>
        is_complete env (world (snd (play_until_complete env animation s))) animation)
   \<and> (settle_count (trace (snd (play_until_complete env animation s)))
         = settle_count (trace s) + 60
       \<and> \<not> is_complete env (world (snd (play_until_complete env animation s))) animation
       \<longrightarrow> \<not> fst (play_until_complete env animation s))"
proof -
  have le: "settle_count (trace (snd (play_until_complete env animation s)))
              \<le> settle_count (trace s) + 60"
    using play_loop_settle_le [of env animation MAX_RETRIES 0 s]
    by (simp add: play_until_complete_def Let_def MAX_RETRIES_def)
  have t: "is_complete env (world (snd (play_until_complete env animation s))) animation"
    if "fst (play_until_complete env animation s)"
    using that play_loop_True [of env animation MAX_RETRIES 0 s]
    by (simp add: play_until_complete_def Let_def)
  have m: "MAX_RETRIES = 60" by (simp add: MAX_RETRIES_def)
  from m le t show ?thesis by blast
qed

lemma example_70_exhausts:
  "\<not> fst (play_until_complete example_env 70 example_state)
   \<and> settle_count (trace (snd (play_until_complete example_env 70 example_state))) = 60"
proof -
  have nc: "\<forall>w. \<not> is_complete example_env w 70"
    using example_70_one_signal by (intro never_complete) simp
  show ?thesis
    using play_loop_exhausts [of example_env 70 example_state MAX_RETRIES 0] nc example_quiet
    by (simp add: play_until_complete_def Let_def MAX_RETRIES_def)
qed

lemma example_60_first_cycle: "fst (play_until_complete example_env 60 example_state)"
proof -
  have "fst (play_loop example_env 60 60 0 example_state)"
    using example_quiet
    by (subst play_loop_unfold) (simp add: should_stop_def example_60_complete Let_def)
  then show ?thesis
    by (simp add: play_until_complete_def Let_def MAX_RETRIES_def)
qed

theorem play_until_complete_bounded_witness:
  "settle_count (trace (snd (play_until_complete example_env 70 example_state)))
     = settle_count (trace example_state) + 60
   \<and> \<not> is_complete example_env
         (world (snd (play_until_complete example_env 70 example_state))) 70
   \<and> \<not> fst (play_until_complete example_env 70 example_state)
   \<and> fst (play_until_complete example_env 60 example_state)
   \<and> is_complete example_env
       (world (snd (play_until_complete example_env 60 example_state))) 60"
proof -
  have nc: "\<forall>w. \<not> is_complete example_env w 70"
    using example_70_one_signal by (intro never_complete) simp
  have h: "settle_count (trace (snd (play_until_complete example_env 70 example_state)))
             = settle_count (trace example_state) + 60
           \<and> \<not> is_complete example_env
                 (world (snd (play_until_complete example_env 70 example_state))) 70"
    using example_70_exhausts nc by (simp add: example_quiet)
  have g: "fst (play_until_complete example_env 60 example_state)"
    by (rule example_60_first_cycle)
  from play_until_complete_bounded [of example_env 70 example_state] h
  have a: "\<not> fst (play_until_complete example_env 70 example_state)" by blast
  from play_until_complete_bounded [of example_env 60 example_state] g
  have b: "is_complete example_env
             (world (snd (play_until_complete example_env 60 example_state))) 60"
    by blast
  from h a g b show ?thesis by blast
qed

subsection \<open>The poll loops\<close>

lemma bit_length_numeral:
  "bit_length 0 = 0"
  "bit_length (Suc 0) = Suc 0"
  "bit_length (numeral (Num.Bit0 k)) = Suc (bit_length (numeral k))"
  "bit_length (numeral (Num.Bit1 k)) = Suc (bit_length (numeral k))"
  by (subst bit_length.simps, simp)+

lemma check_feedback_loop_runs:
  "runs_exactly (\<lambda>w. float_add (float_add w float_0_1) check_interval) n w \<Longrightarrow>
   check_feedback_loop env old_messages w s = poll_feedback_at_most n env old_messages s"
proof (induction n arbitrary: w s)
  case 0
  then show ?case by (subst check_feedback_loop.simps) simp
next
  case (Suc n)
  then show ?case by (subst check_feedback_loop.simps) (simp add: Let_def)
qed

lemma verify_loop_runs:
  "runs_exactly (\<lambda>w. float_add w check_interval) n w \<Longrightarrow>
   verify_loop env question w s = poll_chevron_at_most n env question s"
proof (induction n arbitrary: w s)
  case 0
  then show ?case by (subst verify_loop.simps) simp
next
  case (Suc n)
  then show ?case by (subst verify_loop.simps) (simp add: Let_def)
qed

lemma double_step_runs:
  "runs_exactly (\<lambda>w. float_add (float_add w float_0_1) check_interval)
     (Suc (Suc (Suc (Suc (Suc (Suc (Suc (Suc (Suc (Suc 0)))))))))) 0"
  by (simp add: max_wait_def float_2_0_def check_interval_def float_0_1_def float_add_def
      round_half_even_def bit_length_numeral)

lemma single_step_runs:
  "runs_exactly (\<lambda>w. float_add w check_interval)
     (Suc (Suc (Suc (Suc (Suc (Suc (Suc (Suc (Suc (Suc
     (Suc (Suc (Suc (Suc (Suc (Suc (Suc (Suc (Suc (Suc 0)))))))))))))))))))) 0"
  by (simp add: max_wait_def float_2_0_def check_interval_def float_0_1_def float_add_def
      round_half_even_def bit_length_numeral)

lemma ten: "Suc (Suc (Suc (Suc (Suc (Suc (Suc (Suc (Suc (Suc 0))))))))) = 10"
  by simp

lemma twenty:
  "Suc (Suc (Suc (Suc (Suc (Suc (Suc (Suc (Suc (Suc
     (Suc (Suc (Suc (Suc (Suc (Suc (Suc (Suc (Suc (Suc 0))))))))))))))))))) = 20"
  by simp

text \<open>
  C7. Each pass of the feedback poll adds 0.1 and then the check interval 0.1 to the
  wait counter, in double arithmetic. From 0 that reaches the budget of 2.0 after
  exactly 10 passes, so \<open>check_feedback\<close> is the poll that checks at most 10 times.
  The completion poll of the short-answer solver adds the interval once a pass and
  checks up to 20 times under the same budget.
\<close>

theorem check_feedback_ten_polls:
  "runs_exactly (\<lambda>w. float_add (float_add w float_0_1) check_interval) 10 0
   \<and> check_feedback env old_messages s = poll_feedback_at_most 10 env old_messages s
   \<and> runs_exactly (\<lambda>w. float_add w check_interval) 20 0
   \<and> verify_completion env question s = poll_chevron_at_most 20 env question s"
  using double_step_runs single_step_runs
    check_feedback_loop_runs [OF double_step_runs, of env old_messages s]
    verify_loop_runs [OF single_step_runs, of env question s]
  unfolding ten twenty by (simp add: check_feedback_def verify_completion_def)

subsection \<open>The choice solver\<close>

lemma targets_simps [simp]:
  "scrolled [] = []" "clicked [] = []" "js_clicked [] = []"
  "scrolled (xs @ ys) = scrolled xs @ scrolled ys"
  "clicked (xs @ ys) = clicked xs @ clicked ys"
  "js_clicked (xs @ ys) = js_clicked xs @ js_clicked ys"
  "scrolled (ev # evs) = scroll_target ev @ scrolled evs"
  "clicked (ev # evs) = click_target ev @ clicked evs"
  "js_clicked (ev # evs) = js_click_target ev @ js_clicked evs"
  by (simp_all add: scrolled_def clicked_def js_clicked_def)

lemma attempts_in_order_Nil [simp]: "attempts_in_order [] es"
  by (simp add: attempts_in_order_def)


lemma attempts_in_order_empty:
  "attempts_in_order a [] \<longleftrightarrow> scrolled a = [] \<and> clicked a = [] \<and> js_clicked a = []"
  by (auto simp: attempts_in_order_def dest: list_emb_Nil2)

lemma delay_trace:
  "\<exists>d. trace (snd (bell_curve_delay env m sd mn mx s)) = trace s @ d
       \<and> length d \<le> 1 \<and> attempts_in_order d []"
  by (simp add: bell_curve_delay_def Let_def attempts_in_order_empty)

lemma click_with_fallback_trace:
  "\<exists>evs. trace (snd (click_with_fallback env e m sd mn mx s)) = trace s @ evs
         \<and> length evs \<le> 4 \<and> attempts_in_order evs [e]"
proof -
  let ?s1 = "snd (perform_action env (ExecuteScript ScrollIntoView e) s)"
  obtain d where d: "trace (snd (bell_curve_delay env m (Some sd) (Some mn) (Some mx) ?s1))
                       = trace ?s1 @ d" "length d \<le> 1" "attempts_in_order d []"
    using delay_trace by blast
  then have d': "scrolled d = []" "clicked d = []" "js_clicked d = []"
    by (simp_all add: attempts_in_order_empty)
  show ?thesis
    using d(1,2) d'
    by (simp add: click_with_fallback_def case_prod_beta Let_def attempts_in_order_def
        split: option.split)
qed


lemma poll_feedback_at_most_True:
  "fst (poll_feedback_at_most n env old_messages s) \<Longrightarrow>
   new_feedback env (world (snd (poll_feedback_at_most n env old_messages s)))
     ''div.zb-explanation.correct'' old_messages"
  by (induction n arbitrary: s) (simp_all split: if_splits)

lemma check_feedback_eq:
  "check_feedback env old_messages s = poll_feedback_at_most 10 env old_messages s"
  using check_feedback_loop_runs [OF double_step_runs, of env old_messages s]
  unfolding ten by (simp add: check_feedback_def)


lemma try_radio_True:
  "fst (try_radio env radio s) \<Longrightarrow>
   \<exists>old_messages. new_feedback env (world (snd (try_radio env radio s)))
                    ''div.zb-explanation.correct'' old_messages"
  unfolding check_feedback_eq try_radio_def
  by (auto simp: case_prod_beta Let_def check_feedback_eq
      split: sum.splits option.splits dest: poll_feedback_at_most_True)


lemma radio_loop_True:
  "fst (radio_loop env radios s) \<Longrightarrow>
   \<exists>old_messages. new_feedback env (world (snd (radio_loop env radios s)))
                    ''div.zb-explanation.correct'' old_messages"
proof (induction radios arbitrary: s)
  case Nil
  then show ?case by simp
next
  case (Cons radio radios)
  show ?case
  proof (cases "fst (try_radio env radio s)")
    case True
    then have "snd (radio_loop env (radio # radios) s) = snd (try_radio env radio s)"
      using Cons.prems by (simp add: case_prod_beta split: if_splits)
    then show ?thesis using try_radio_True [OF True] by simp
  next
    case False
    then have "radio_loop env (radio # radios) s
               = radio_loop env radios (snd (try_radio env radio s))"
      using Cons.prems by (simp add: case_prod_beta split: if_splits)
    then show ?thesis using Cons.IH Cons.prems by simp
  qed
qed



















subsection \<open>The short-answer solver\<close>

lemma activations_simps [simp]:
  "activations e [] = 0"
  "activations e (xs @ ys) = activations e xs + activations e ys"
  "activations e ((a, r) # evs) =
     (if r = None \<and> (a = Click e \<or> a = ExecuteScript JsClick e) then 1 else 0)
     + activations e evs"
  by (simp_all add: activations_def activated_def)

lemma delay_activations:
  "activations e (trace (snd (bell_curve_delay env m sd mn mx s))) = activations e (trace s)"
  by (simp add: bell_curve_delay_def Let_def)

lemma click_with_fallback_activations:
  "activations e (trace (snd (click_with_fallback env e m sd mn mx s)))
   = activations e (trace s) + (if fst (click_with_fallback env e m sd mn mx s) = None then 1 else 0)"
  by (simp add: click_with_fallback_def case_prod_beta Let_def delay_activations
      split: option.split)

lemma safe_click_activations:
  "activations e (trace (snd (safe_click env e s)))
   = activations e (trace s) + (if fst (safe_click env e s) = None then 1 else 0)"
  by (simp add: safe_click_def click_with_fallback_activations)

lemma reveal_answer_activations:
  "activations btn (trace (snd (reveal_answer env btn s)))
   = activations btn (trace s) + (if fst (reveal_answer env btn s) then 2 else
       if fst (safe_click env btn s) = None then 1 else 0)"
  by (simp add: reveal_answer_def case_prod_beta Let_def delay_activations
      safe_click_activations split: option.split)

lemma delay_prefix:
  "prefix (trace s0) (trace s) \<Longrightarrow>
   prefix (trace s0) (trace (snd (bell_curve_delay env m sd mn mx s)))"
  by (simp add: bell_curve_delay_def Let_def)

lemma perform_action_prefix:
  "prefix (trace s0) (trace s) \<Longrightarrow> prefix (trace s0) (trace (snd (perform_action env a s)))"
  by simp

lemma click_with_fallback_prefix:
  "prefix (trace s0) (trace s) \<Longrightarrow>
   prefix (trace s0) (trace (snd (click_with_fallback env e m sd mn mx s)))"
  using click_with_fallback_trace [of env e m sd mn mx s] by auto

lemma safe_click_prefix:
  "prefix (trace s0) (trace s) \<Longrightarrow> prefix (trace s0) (trace (snd (safe_click env e s)))"
  by (simp add: safe_click_def click_with_fallback_prefix)

lemma type_answer_prefix:
  "prefix (trace s0) (trace s) \<Longrightarrow>
   prefix (trace s0) (trace (snd (type_answer env field answer s)))"
  by (simp add: type_answer_def case_prod_beta Let_def delay_prefix split: option.split)

lemma submit_answer_prefix:
  "prefix (trace s0) (trace s) \<Longrightarrow>
   prefix (trace s0) (trace (snd (submit_answer env chk s)))"
  by (simp add: submit_answer_def case_prod_beta delay_prefix safe_click_prefix
      split: option.split)

lemma poll_chevron_at_most_prefix:
  "prefix (trace s0) (trace s) \<Longrightarrow>
   prefix (trace s0) (trace (snd (poll_chevron_at_most n env question s)))"
  by (induction n arbitrary: s) (simp_all add: delay_prefix)

lemma verify_completion_eq:
  "verify_completion env question s = poll_chevron_at_most 20 env question s"
  using verify_loop_runs [OF single_step_runs, of env question s]
  unfolding twenty by (simp add: verify_completion_def)

lemma verify_completion_prefix:
  "prefix (trace s0) (trace s) \<Longrightarrow>
   prefix (trace s0) (trace (snd (verify_completion env question s)))"
  by (simp add: verify_completion_eq poll_chevron_at_most_prefix)

text \<open>What \<open>solve_question\<close> does once the three elements are found.\<close>

lemma short_answer_after_find:
  assumes "find_show_answer_button env (world s) question = Inr (Some btn)"
    and "find_input_field env (world s) question = Inr (Some field)"
    and "find_check_button env (world s) question = Inr (Some chk)"
  shows "short_answer_solve_question env question s =
           (let r = reveal_answer env btn s; s1 = snd r
            in if \<not> fst r then (False, s1)
               else
                 (case extract_answer env (world s1) question of
                    Inr (Some answer) \<Rightarrow>
                      (let t = type_answer env field answer s1
                       in if \<not> fst t then (False, snd t)
                          else
                            (let u = submit_answer env chk (snd t)
                             in if \<not> fst u then (False, snd u)
                                else verify_completion env question (snd u)))
                  | _ \<Rightarrow> (False, s1)))"
  using assms
  by (simp add: short_answer_solve_question_def case_prod_beta Let_def
      split: sum.split option.split bool.split)

text \<open>
  C5. Once the reveal control, the input field and the submit control are found, the
  answer text is read from the page as it is after \<open>reveal_answer\<close> returned \<open>True\<close>,
  and by then the reveal control has been activated exactly twice. If the reveal step
  fails, the control was activated at most once and the record is abandoned without
  reading the answer; everything the solver does later comes after the two activations.
\<close>

theorem reveal_twice_before_extract:
  assumes "find_show_answer_button env (world s) question = Inr (Some btn)"
    and "find_input_field env (world s) question = Inr (Some field)"
    and "find_check_button env (world s) question = Inr (Some chk)"
  shows "\<exists>revealed s1.
           reveal_answer env btn s = (revealed, s1)
           \<and> (revealed \<longrightarrow> activations btn (trace s1) = activations btn (trace s) + 2)
           \<and> (\<not> revealed \<longrightarrow>
                activations btn (trace s1) \<le> activations btn (trace s) + 1
                \<and> short_answer_solve_question env question s = (False, s1))
           \<and> (revealed \<longrightarrow>
                (\<forall>answer. extract_answer env (world s1) question \<noteq> Inr (Some answer)) \<longrightarrow>
                short_answer_solve_question env question s = (False, s1))
           \<and> (revealed \<longrightarrow>
                prefix (trace s1) (trace (snd (short_answer_solve_question env question s))))"
proof -
  let ?r = "reveal_answer env btn s"
  note eq = short_answer_after_find [OF assms]
  have a: "fst ?r \<longrightarrow> activations btn (trace (snd ?r)) = activations btn (trace s) + 2"
    by (simp add: reveal_answer_activations)
  have b: "\<not> fst ?r \<longrightarrow> activations btn (trace (snd ?r)) \<le> activations btn (trace s) + 1"
    by (simp add: reveal_answer_activations)
  have c: "\<not> fst ?r \<longrightarrow> short_answer_solve_question env question s = (False, snd ?r)"
    by (simp add: eq Let_def)
  have d: "fst ?r \<longrightarrow>
           (\<forall>answer. extract_answer env (world (snd ?r)) question \<noteq> Inr (Some answer)) \<longrightarrow>
           short_answer_solve_question env question s = (False, snd ?r)"
    by (simp add: eq Let_def split: sum.split option.split)
  have e: "prefix (trace (snd ?r)) (trace (snd (short_answer_solve_question env question s)))"
    by (simp add: eq Let_def type_answer_prefix submit_answer_prefix verify_completion_prefix
        split: sum.split option.split)
  have "?r = (fst ?r, snd ?r)" by simp
  with a b c d e show ?thesis by blast
qed

lemma example_40_found:
  "find_show_answer_button example_env (world example_state) 40 = Inr (Some 41)"
  "find_input_field example_env (world example_state) 40 = Inr (Some 42)"
  "find_check_button example_env (world example_state) 40 = Inr (Some 43)"
  by (simp_all add: find_show_answer_button_def find_input_field_def find_check_button_def
      example_env_def)

lemma example_41_revealed: "fst (reveal_answer example_env 41 example_state)"
  by (simp add: reveal_answer_def safe_click_def click_with_fallback_def perform_action_def
      case_prod_beta Let_def example_env_def)

theorem reveal_twice_before_extract_witness:
  "find_show_answer_button example_env (world example_state) 40 = Inr (Some 41)
   \<and> find_input_field example_env (world example_state) 40 = Inr (Some 42)
   \<and> find_check_button example_env (world example_state) 40 = Inr (Some 43)
   \<and> fst (reveal_answer example_env 41 example_state)
   \<and> activations 41 (trace (snd (reveal_answer example_env 41 example_state)))
       = activations 41 (trace example_state) + 2
   \<and> prefix (trace (snd (reveal_answer example_env 41 example_state)))
       (trace (snd (short_answer_solve_question example_env 40 example_state)))"
proof -
  from reveal_twice_before_extract [OF example_40_found]
  obtain revealed s1 where r: "reveal_answer example_env 41 example_state = (revealed, s1)"
    and a: "revealed \<longrightarrow> activations 41 (trace s1) = activations 41 (trace example_state) + 2"
    and p: "revealed \<longrightarrow>
            prefix (trace s1) (trace (snd (short_answer_solve_question example_env 40 example_state)))"
    by blast
  from r example_41_revealed have "revealed" by simp
  with r a p example_40_found example_41_revealed show ?thesis by simp
qed

subsection \<open>Cancellation\<close>

lemma random_delay_sticky: "stop_event s \<Longrightarrow> stop_event (random_delay env s)"
  by (simp add: random_delay_def Let_def delay_sticky)

lemma poll_feedback_at_most_sticky:
  "stop_event s \<Longrightarrow> stop_event (snd (poll_feedback_at_most n env old_messages s))"
  by (cases n) (simp_all add: should_stop_def)

lemma check_feedback_sticky:
  "stop_event s \<Longrightarrow> stop_event (snd (check_feedback env old_messages s))"
  by (simp add: check_feedback_eq poll_feedback_at_most_sticky)

lemma try_radio_sticky: "stop_event s \<Longrightarrow> stop_event (snd (try_radio env radio s))"
  by (simp add: try_radio_def case_prod_beta Let_def click_with_fallback_sticky
      delay_sticky check_feedback_sticky split: sum.split option.split)



























end
